theory Spec2Isabelle
  imports Complex_Main "HOL-Library.AList"
begin

section \<open>Tables, masks and the array operations of pipeline.py\<close>

text \<open>
  The object and catalogue tables of \<^verbatim>\<open>stdpipe/pipeline.py\<close> are column tables (astropy
  tables): an ordered list of named columns. A cell is a real number (the value of a
  finite float); every raise of the source is a value of \<open>error\<close>. A scalar float that
  numpy may turn into \<^verbatim>\<open>nan\<close> (the matching radius) is an \<open>npfloat\<close>. The float
  arithmetic that computes the radius is numpy's and rounds; it is left to the environment
  below and not computed here.
\<close>

type_synonym column = "real list"
type_synonym mask = "bool list"
type_synonym table = "(string \<times> column) list"

datatype error = KeyError string | ValueError | TypeError | IndexError | AttributeError

datatype npfloat = Num real | NaN

text \<open>\<^verbatim>\<open>len(obj)\<close>: the length of the first column, 0 for a table without columns.\<close>

definition len_table :: "table \<Rightarrow> nat" where
  "len_table t = (case t of [] \<Rightarrow> 0 | (k, c) # rest \<Rightarrow> length c)"

text \<open>\<^verbatim>\<open>obj[name]\<close>: a missing column raises.\<close>

definition getcol :: "table \<Rightarrow> string \<Rightarrow> error + column" where
  "getcol t k = (case map_of t k of None \<Rightarrow> Inl (KeyError k) | Some c \<Rightarrow> Inr c)"

text \<open>\<^verbatim>\<open>cat[name]\<close> where the name may be \<^verbatim>\<open>None\<close>: a table refuses the key \<^verbatim>\<open>None\<close>.\<close>

definition getcol_opt :: "table \<Rightarrow> string option \<Rightarrow> error + column" where
  "getcol_opt t ko = (case ko of None \<Rightarrow> Inl ValueError | Some k \<Rightarrow> getcol t k)"

text \<open>\<^verbatim>\<open>obj[name] = values\<close>: replaces or appends a column; a column of the wrong length
  is refused.\<close>

definition setcol :: "table \<Rightarrow> string \<Rightarrow> column \<Rightarrow> error + table" where
  "setcol t k c =
     (if t = [] \<or> length c = len_table t then Inr (AList.update k c t) else Inl ValueError)"

text \<open>Boolean-mask indexing \<^verbatim>\<open>a[mask]\<close> of an array and of a table.\<close>

definition pick :: "mask \<Rightarrow> 'a list \<Rightarrow> 'a list" where
  "pick m xs = map snd (filter fst (zip m xs))"

definition pick_checked :: "mask \<Rightarrow> 'a list \<Rightarrow> error + 'a list" where
  "pick_checked m xs = (if length m = length xs then Inr (pick m xs) else Inl IndexError)"

definition select_rows :: "table \<Rightarrow> mask \<Rightarrow> error + table" where
  "select_rows t m =
     (if length m = len_table t then Inr (map (\<lambda>(k, c). (k, pick m c)) t)
      else Inl IndexError)"

text \<open>Integer-array indexing \<^verbatim>\<open>obj[oidx]\<close>: an index out of range raises.\<close>

definition take_rows :: "table \<Rightarrow> nat list \<Rightarrow> error + table" where
  "take_rows t js =
     (if list_all (\<lambda>i. i < len_table t) js
         \<and> list_all (\<lambda>(k, c). list_all (\<lambda>i. i < length c) js) t
      then Inr (map (\<lambda>(k, c). (k, map (\<lambda>i. c ! i) js)) t)
      else Inl IndexError)"

definition np_any :: "mask \<Rightarrow> bool" where
  "np_any m = list_ex (\<lambda>b. b) m"

definition np_sum :: "mask \<Rightarrow> nat" where
  "np_sum m = length (filter (\<lambda>b. b) m)"

text \<open>\<^verbatim>\<open>cand_idx &= other\<close> on arrays of one length.\<close>

definition mask_and :: "mask \<Rightarrow> mask \<Rightarrow> error + mask" where
  "mask_and a b =
     (if length a = length b then Inr (map (\<lambda>(x, y). x \<and> y) (zip a b)) else Inl ValueError)"

text \<open>\<^verbatim>\<open>cand_idx[m[0]] = False\<close>.\<close>

definition mask_clear :: "mask \<Rightarrow> nat list \<Rightarrow> error + mask" where
  "mask_clear a js =
     (if list_all (\<lambda>i. i < length a) js
      then Inr (map (\<lambda>(i, b). b \<and> i \<notin> set js) (enumerate 0 a))
      else Inl IndexError)"

definition in1d :: "column \<Rightarrow> column \<Rightarrow> mask" where
  "in1d a b = map (\<lambda>x. x \<in> set b) a"

definition arange :: "nat \<Rightarrow> column" where
  "arange n = map real [0..<n]"

text \<open>\<^verbatim>\<open>a + b\<close> on two arrays: elementwise on one length, an array of one element is
  broadcast, other lengths raise.\<close>

definition np_add :: "column \<Rightarrow> column \<Rightarrow> error + column" where
  "np_add a b =
     (if length a = length b then Inr (map (\<lambda>(x, y). x + y) (zip a b))
      else if length b = 1 then Inr (map (\<lambda>x. x + hd b) a)
      else if length a = 1 then Inr (map (\<lambda>y. hd a + y) b)
      else Inl ValueError)"

section \<open>Match results, messages and calls of the collaborators\<close>

text \<open>The arguments \<^verbatim>\<open>photometry.match\<close> is called with (absent keywords are \<open>None\<close>) and
  the fields of the dictionary it returns that the pipeline reads.\<close>

record match_args =
  obj_ra :: column
  obj_dec :: column
  obj_mag :: column
  obj_magerr :: column
  obj_flags :: column
  cat_ra :: column
  cat_dec :: column
  cat_mag :: column
  cat_magerr :: "column option"
  match_sr :: npfloat
  cat_color :: "column option"
  obj_x :: "column option"
  obj_y :: "column option"
  spatial_order :: "int option"
  threshold :: "real option"

record match_result =
  idx :: mask
  oidx :: "nat list"
  cidx :: "nat list"
  dist :: column
  color_term :: "real option"
  zero_fn :: "column \<Rightarrow> column \<Rightarrow> column"

text \<open>What is printed: one constructor per message of the source, with the values it
  formats.\<close>

datatype msg =
    MsgRefineStart npfloat bool string
  | MsgTooFew nat
  | MsgIteration nat nat column
  | MsgFilterStart nat npfloat
  | MsgUnflagged nat
  | MsgNotMatched nat
  | MsgRemains nat string
  | MsgRemaining nat
  | MsgCalibStart nat nat
  | MsgCalibUsing npfloat string int
  | MsgColor string string
  | MsgCalibDone
  | MsgColorTerm real
  | MsgCalibFailed

text \<open>The keyword arguments handed to \<^verbatim>\<open>astrometry.refine_wcs_scamp\<close>.\<close>

record 'w scamp_args =
  s_sr :: npfloat
  s_wcs :: "'w option"
  s_order :: int
  s_cat_col_mag :: string
  s_cat_col_mag_err :: "string option"
  s_cat_col_ra :: string
  s_cat_col_dec :: string
  s_cat_col_ra_err :: string
  s_cat_col_dec_err :: string
  s_update :: bool
  s_verbose :: bool

text \<open>The observable events of a call, in order: a printed message, or a call of a
  collaborator with its arguments and its result.\<close>

datatype 'w event =
    Print msg
  | EvPhotMatch match_args "match_result option"
  | EvRefineWcs table table int "npfloat option" bool string "'w option"
  | EvScamp table table "'w scamp_args" "'w option"
  | EvHtmMatch column column column column npfloat "nat list"
  | EvXmatchObjects table string npfloat "table option"
  | EvXmatchSkybot table column string "table option"
  | EvXmatchNed table npfloat string "table option"

text \<open>
  The collaborators of the pipeline (modules \<^verbatim>\<open>photometry\<close>, \<^verbatim>\<open>astrometry\<close>,
  \<^verbatim>\<open>catalogs\<close>, \<^verbatim>\<open>esutil.htm\<close> and the WCS class) are not part of the file; they are
  parameters of the model. \<open>pix2world\<close> maps one pixel position, \<open>htm_match\<close> returns the
  first index array of the match, \<open>catalogs\<close> gives the name entry of a known catalogue,
  and \<open>refine_wcs_scamp\<close> returns the solution with the object table as it leaves it.
  So are the float operations of numpy and Python behind the radius: \<open>np_times\<close> is
  array times scalar, \<open>np_median\<close> is \<^verbatim>\<open>np.median\<close> and \<open>float_div\<close> is the division
  of a float by a number.
\<close>

record 'w env =
  pix2world :: "'w \<Rightarrow> real \<times> real \<Rightarrow> real \<times> real"
  photometry_match :: "match_args \<Rightarrow> match_result option"
  refine_wcs :: "table \<Rightarrow> table \<Rightarrow> int \<Rightarrow> npfloat option \<Rightarrow> bool \<Rightarrow> string \<Rightarrow> 'w option"
  refine_wcs_scamp :: "table \<Rightarrow> table \<Rightarrow> 'w scamp_args \<Rightarrow> 'w option \<times> table"
  htm_match :: "column \<Rightarrow> column \<Rightarrow> column \<Rightarrow> column \<Rightarrow> npfloat \<Rightarrow> nat list"
  xmatch_objects :: "table \<Rightarrow> string \<Rightarrow> npfloat \<Rightarrow> table option"
  xmatch_skybot :: "table \<Rightarrow> column \<Rightarrow> string \<Rightarrow> table option"
  xmatch_ned :: "table \<Rightarrow> npfloat \<Rightarrow> string \<Rightarrow> table option"
  catalogs :: "string \<Rightarrow> string option"
  np_times :: "column \<Rightarrow> real \<Rightarrow> column"
  np_median :: "column \<Rightarrow> npfloat"
  float_div :: "npfloat \<Rightarrow> real \<Rightarrow> npfloat"

section \<open>Store, output and exceptions\<close>

text \<open>
  Tables are mutable objects: the store is the list of the tables alive, a reference is
  an index into it, \<^verbatim>\<open>copy()\<close> and a returned new table append to it. A computation
  takes the store and gives its outcome (an exception or a value), the store it leaves
  and the events it produced; an exception keeps the store and the events so far.
\<close>

type_synonym heap = "table list"
type_synonym ('a, 'w) M = "heap \<Rightarrow> (error + 'a) \<times> heap \<times> 'w event list"

definition ret :: "'a \<Rightarrow> ('a, 'w) M" where
  "ret x = (\<lambda>h. (Inr x, h, []))"

definition raise :: "error \<Rightarrow> ('a, 'w) M" where
  "raise e = (\<lambda>h. (Inl e, h, []))"

definition bnd :: "('a, 'w) M \<Rightarrow> ('a \<Rightarrow> ('b, 'w) M) \<Rightarrow> ('b, 'w) M" where
  "bnd m f = (\<lambda>h. case m h of
       (Inl e, h1, ev1) \<Rightarrow> (Inl e, h1, ev1)
     | (Inr x, h1, ev1) \<Rightarrow> (case f x h1 of (r, h2, ev2) \<Rightarrow> (r, h2, ev1 @ ev2)))"

definition lift :: "error + 'a \<Rightarrow> ('a, 'w) M" where
  "lift r = (case r of Inl e \<Rightarrow> raise e | Inr x \<Rightarrow> ret x)"

definition emit :: "'w event \<Rightarrow> (unit, 'w) M" where
  "emit e = (\<lambda>h. (Inr (), h, [e]))"

text \<open>\<^verbatim>\<open>log = print if verbose else lambda *args,**kwargs: None\<close>; the arguments of a call
  of \<^verbatim>\<open>log\<close> are evaluated in both cases, before this.\<close>

definition log :: "bool \<Rightarrow> msg \<Rightarrow> (unit, 'w) M" where
  "log verbose m = (if verbose then emit (Print m) else ret ())"

definition get_table :: "nat \<Rightarrow> (table, 'w) M" where
  "get_table r = (\<lambda>h. (Inr (h ! r), h, []))"

definition alloc :: "table \<Rightarrow> (nat, 'w) M" where
  "alloc t = (\<lambda>h. (Inr (length h), h @ [t], []))"

definition set_column :: "nat \<Rightarrow> string \<Rightarrow> column \<Rightarrow> (unit, 'w) M" where
  "set_column r k c = (\<lambda>h. case setcol (h ! r) k c of
       Inl e \<Rightarrow> (Inl e, h, [])
     | Inr t \<Rightarrow> (Inr (), h[r := t], []))"

section \<open>refine_astrometry\<close>

record 'w refine_opts =
  r_sr :: npfloat
  r_wcs :: "'w option"
  r_order :: int
  r_cat_col_mag :: string
  r_cat_col_mag_err :: "string option"
  r_cat_col_ra :: string
  r_cat_col_dec :: string
  r_cat_col_ra_err :: string
  r_cat_col_dec_err :: string
  r_n_iter :: int
  r_use_photometry :: bool
  r_min_matches :: int
  r_method :: string
  r_update :: bool
  r_verbose :: bool

text \<open>\<^verbatim>\<open>wcs.all_pix2world(x, y, 0)\<close> on two arrays of one length.\<close>

definition all_pix2world :: "'w env \<Rightarrow> 'w \<Rightarrow> column \<Rightarrow> column \<Rightarrow> error + column \<times> column" where
  "all_pix2world env w xs ys =
     (if length xs = length ys
      then Inr (map (\<lambda>p. fst (pix2world env w p)) (zip xs ys),
                map (\<lambda>p. snd (pix2world env w p)) (zip xs ys))
      else Inl ValueError)"

text \<open>\<^verbatim>\<open>obj['ra'],obj['dec'] = wcs.all_pix2world(obj['x'], obj['y'], 0)\<close> (lines 35 and 63),
  on the caller's table.\<close>

definition reproject :: "'w env \<Rightarrow> nat \<Rightarrow> 'w \<Rightarrow> (unit, 'w) M" where
  "reproject env obj w =
     bnd (get_table obj) (\<lambda>t.
     bnd (lift (getcol t ''x'')) (\<lambda>x.
     bnd (lift (getcol t ''y'')) (\<lambda>y.
     bnd (lift (all_pix2world env w x y)) (\<lambda>rd.
     bnd (set_column obj ''ra'' (fst rd)) (\<lambda>u.
     set_column obj ''dec'' (snd rd))))))"

definition call_match :: "'w env \<Rightarrow> match_args \<Rightarrow> (match_result option, 'w) M" where
  "call_match env a =
     bnd (emit (EvPhotMatch a (photometry_match env a))) (\<lambda>u. ret (photometry_match env a))"

definition call_refine_wcs ::
  "'w env \<Rightarrow> table \<Rightarrow> table \<Rightarrow> int \<Rightarrow> npfloat option \<Rightarrow> bool \<Rightarrow> string \<Rightarrow> ('w option, 'w) M" where
  "call_refine_wcs env t c ord sr mt meth =
     bnd (emit (EvRefineWcs t c ord sr mt meth (refine_wcs env t c ord sr mt meth)))
       (\<lambda>u. ret (refine_wcs env t c ord sr mt meth))"

definition scamp_args_of :: "'w refine_opts \<Rightarrow> 'w scamp_args" where
  "scamp_args_of opts =
     \<lparr> s_sr = r_sr opts, s_wcs = r_wcs opts, s_order = r_order opts,
       s_cat_col_mag = r_cat_col_mag opts, s_cat_col_mag_err = r_cat_col_mag_err opts,
       s_cat_col_ra = r_cat_col_ra opts, s_cat_col_dec = r_cat_col_dec opts,
       s_cat_col_ra_err = r_cat_col_ra_err opts, s_cat_col_dec_err = r_cat_col_dec_err opts,
       s_update = r_update opts, s_verbose = r_verbose opts \<rparr>"

text \<open>Lines 39-43: the delegated solver gets the caller's table and may write to it.\<close>

definition call_scamp :: "'w env \<Rightarrow> nat \<Rightarrow> table \<Rightarrow> 'w refine_opts \<Rightarrow> ('w option, 'w) M" where
  "call_scamp env obj cat opts = (\<lambda>h.
     (case refine_wcs_scamp env (h ! obj) cat (scamp_args_of opts) of
        (w, t') \<Rightarrow> (Inr w, h[obj := t'], [EvScamp (h ! obj) cat (scamp_args_of opts) w])))"

text \<open>\<^verbatim>\<open>m['idx']\<close>: subscripting \<^verbatim>\<open>None\<close> raises.\<close>

definition subscript_idx :: "match_result option \<Rightarrow> error + mask" where
  "subscript_idx m = (case m of None \<Rightarrow> Inl TypeError | Some mr \<Rightarrow> Inr (idx mr))"

text \<open>How one pass of the loop body ends: with \<^verbatim>\<open>return None\<close> (line 52) or with the
  solution it assigned to \<^verbatim>\<open>wcs\<close>.\<close>

datatype 'w flow = Return "'w option" | Continue "'w option"

text \<open>Lines 48-57, the photometric branch. The condition of line 50 is true for a
  match that is \<^verbatim>\<open>None\<close> without reading it further; the argument of \<^verbatim>\<open>log\<close> on line 51
  then reads \<^verbatim>\<open>m['idx']\<close>.\<close>

definition fit_matched ::
  "'w env \<Rightarrow> table \<Rightarrow> table \<Rightarrow> 'w refine_opts \<Rightarrow> nat \<Rightarrow> match_result option \<Rightarrow> ('w flow, 'w) M" where
  "fit_matched env t cat opts iter m =
     bnd (lift (subscript_idx m)) (\<lambda>good.
     bnd (lift (pick_checked good (map (\<lambda>d. 3600 * d) (dist (the m))))) (\<lambda>ds.
     bnd (log (r_verbose opts) (MsgIteration iter (np_sum good) ds)) (\<lambda>u.
     bnd (lift (take_rows t (oidx (the m)))) (\<lambda>t1.
     bnd (lift (select_rows t1 good)) (\<lambda>t2.
     bnd (lift (take_rows cat (cidx (the m)))) (\<lambda>c1.
     bnd (lift (select_rows c1 good)) (\<lambda>c2.
     bnd (call_refine_wcs env t2 c2 (r_order opts) None False (r_method opts)) (\<lambda>w.
     ret (Continue w)))))))))"

definition too_few :: "'w refine_opts \<Rightarrow> match_result option \<Rightarrow> ('w flow, 'w) M" where
  "too_few opts m =
     bnd (lift (subscript_idx m)) (\<lambda>good.
     bnd (log (r_verbose opts) (MsgTooFew (np_sum good))) (\<lambda>u.
     ret (Return None)))"

definition photometric_fit ::
  "'w env \<Rightarrow> nat \<Rightarrow> table \<Rightarrow> 'w refine_opts \<Rightarrow> nat \<Rightarrow> ('w flow, 'w) M" where
  "photometric_fit env obj cat opts iter =
     bnd (lift (case r_cat_col_mag_err opts of
                  None \<Rightarrow> Inr None
                | Some k \<Rightarrow> (case getcol cat k of Inl e \<Rightarrow> Inl e | Inr c \<Rightarrow> Inr (Some c)))) (\<lambda>cme.
     bnd (get_table obj) (\<lambda>t.
     bnd (lift (getcol t ''ra'')) (\<lambda>ra.
     bnd (lift (getcol t ''dec'')) (\<lambda>dec.
     bnd (lift (getcol t ''mag'')) (\<lambda>mag.
     bnd (lift (getcol t ''magerr'')) (\<lambda>magerr.
     bnd (lift (getcol t ''flags'')) (\<lambda>flags.
     bnd (lift (getcol cat (r_cat_col_ra opts))) (\<lambda>cra.
     bnd (lift (getcol cat (r_cat_col_dec opts))) (\<lambda>cdec.
     bnd (lift (getcol cat (r_cat_col_mag opts))) (\<lambda>cmag.
     bnd (call_match env
            \<lparr> obj_ra = ra, obj_dec = dec, obj_mag = mag, obj_magerr = magerr,
              obj_flags = flags, cat_ra = cra, cat_dec = cdec, cat_mag = cmag,
              cat_magerr = cme, match_sr = r_sr opts, cat_color = None,
              obj_x = None, obj_y = None, spatial_order = None, threshold = None \<rparr>) (\<lambda>m.
     if m = None \<or> int (np_sum (idx (the m))) < r_min_matches opts
     then too_few opts m
     else fit_matched env t cat opts iter m)))))))))))"

text \<open>Lines 46-63, one pass of the loop body.\<close>

definition refine_iteration ::
  "'w env \<Rightarrow> nat \<Rightarrow> table \<Rightarrow> 'w refine_opts \<Rightarrow> nat \<Rightarrow> ('w flow, 'w) M" where
  "refine_iteration env obj cat opts iter =
     bnd (if r_use_photometry opts then photometric_fit env obj cat opts iter
          else bnd (get_table obj) (\<lambda>t.
               bnd (call_refine_wcs env t cat (r_order opts) (Some (r_sr opts)) True
                      (r_method opts)) (\<lambda>w.
               ret (Continue w)))) (\<lambda>fl.
     case fl of
       Return r \<Rightarrow> ret (Return r)
     | Continue w \<Rightarrow>
         if r_update opts
         then (case w of
                 None \<Rightarrow> raise AttributeError
               | Some w' \<Rightarrow> bnd (reproject env obj w') (\<lambda>u. ret (Continue w)))
         else ret (Continue w))"

text \<open>\<^verbatim>\<open>for iter in range(n_iter)\<close> followed by \<^verbatim>\<open>return wcs\<close>.\<close>

fun refine_loop ::
  "'w env \<Rightarrow> nat \<Rightarrow> table \<Rightarrow> 'w refine_opts \<Rightarrow> nat list \<Rightarrow> 'w option \<Rightarrow> ('w option, 'w) M" where
  "refine_loop env obj cat opts [] wcs h = (Inr wcs, h, [])"
| "refine_loop env obj cat opts (iter # rest) wcs h =
     (case refine_iteration env obj cat opts iter h of
        (Inl e, h1, ev1) \<Rightarrow> (Inl e, h1, ev1)
      | (Inr (Return r), h1, ev1) \<Rightarrow> (Inr r, h1, ev1)
      | (Inr (Continue w), h1, ev1) \<Rightarrow>
          (case refine_loop env obj cat opts rest w h1 of
             (r, h2, ev2) \<Rightarrow> (r, h2, ev1 @ ev2)))"

definition refine_astrometry ::
  "'w env \<Rightarrow> nat \<Rightarrow> table \<Rightarrow> 'w refine_opts \<Rightarrow> ('w option, 'w) M" where
  "refine_astrometry env obj cat opts =
     bnd (log (r_verbose opts)
            (MsgRefineStart (r_sr opts) (r_use_photometry opts) (r_method opts))) (\<lambda>u.
     bnd (case r_wcs opts of None \<Rightarrow> ret () | Some w \<Rightarrow> reproject env obj w) (\<lambda>u.
     if r_method opts = ''scamp'' then call_scamp env obj cat opts
     else refine_loop env obj cat opts [0..<nat (r_n_iter opts)] (r_wcs opts)))"

section \<open>The default matching radius\<close>

text \<open>Lines 78-84 and, word for word, lines 155-161: a radius that is not given is
  \<^verbatim>\<open>np.median(obj['fwhm']*pixscale)/2\<close>, or \<^verbatim>\<open>1/3600\<close> without a pixel scale.\<close>

definition default_radius ::
  "'w env \<Rightarrow> table \<Rightarrow> npfloat option \<Rightarrow> real option \<Rightarrow> error + npfloat" where
  "default_radius env t sr pixscale =
     (case sr of
        Some r \<Rightarrow> Inr r
      | None \<Rightarrow>
          (case pixscale of
             Some p \<Rightarrow>
               (case getcol t ''fwhm'' of
                  Inl e \<Rightarrow> Inl e
                | Inr f \<Rightarrow> Inr (float_div env (np_median env (np_times env f p)) 2))
           | None \<Rightarrow> Inr (float_div env (Num 1) 3600)))"

section \<open>filter_transient_candidates\<close>

record filter_opts =
  f_sr :: "npfloat option"
  f_pixscale :: "real option"
  f_time :: "column option"
  f_cat :: "table option"
  f_cat_col_ra :: string
  f_cat_col_dec :: string
  f_vizier :: "string list"
  f_skybot :: bool
  f_ned :: bool
  f_flagged :: bool
  f_col_id :: "string option"
  f_get_candidates :: bool
  f_verbose :: bool

text \<open>What the call returns: the reference of a new table, or the mask.\<close>

datatype filter_result = Candidates nat | CandMask mask

text \<open>Lines 101-104. The count is written with \<^verbatim>\<open>print\<close>, not with \<^verbatim>\<open>log\<close>.\<close>

definition stage_flagged :: "nat \<Rightarrow> bool \<Rightarrow> mask \<Rightarrow> (mask, 'w) M" where
  "stage_flagged obj flagged cand =
     (if flagged
      then bnd (get_table obj) (\<lambda>t.
           bnd (lift (getcol t ''flags'')) (\<lambda>fl.
           bnd (lift (mask_and cand (map (\<lambda>f. f = 0) fl))) (\<lambda>cand'.
           bnd (emit (Print (MsgUnflagged (np_sum cand')))) (\<lambda>u.
           ret cand'))))
      else ret cand)"

text \<open>Lines 106-109.\<close>

definition stage_cat ::
  "'w env \<Rightarrow> nat \<Rightarrow> table option \<Rightarrow> string \<Rightarrow> string \<Rightarrow> npfloat \<Rightarrow> bool \<Rightarrow> mask \<Rightarrow> (mask, 'w) M" where
  "stage_cat env obj cat col_ra col_dec sr verbose cand =
     (if cat \<noteq> None \<and> np_any cand
      then bnd (get_table obj) (\<lambda>t.
           bnd (lift (getcol t ''ra'')) (\<lambda>ra.
           bnd (lift (getcol t ''dec'')) (\<lambda>dec.
           bnd (lift (getcol (the cat) col_ra)) (\<lambda>cra.
           bnd (lift (getcol (the cat) col_dec)) (\<lambda>cdec.
           bnd (emit (EvHtmMatch ra dec cra cdec sr (htm_match env ra dec cra cdec sr))) (\<lambda>u.
           bnd (lift (mask_clear cand (htm_match env ra dec cra cdec sr))) (\<lambda>cand'.
           bnd (log verbose (MsgNotMatched (np_sum cand'))) (\<lambda>u.
           ret cand'))))))))
      else ret cand)"

text \<open>\<^verbatim>\<open>if xcat is not None and len(xcat): cand_idx &= ~np.in1d(obj[col_id], xcat[col_id])\<close>
  (lines 116-117, 127-128 and 133-134).\<close>

definition drop_matched :: "table \<Rightarrow> string \<Rightarrow> table option \<Rightarrow> mask \<Rightarrow> error + mask" where
  "drop_matched t col_id xcat cand =
     (if xcat \<noteq> None \<and> len_table (the xcat) \<noteq> 0
      then (case getcol t col_id of
              Inl e \<Rightarrow> Inl e
            | Inr ids \<Rightarrow>
                (case getcol (the xcat) col_id of
                   Inl e \<Rightarrow> Inl e
                 | Inr xids \<Rightarrow> mask_and cand (map (\<lambda>b. \<not> b) (in1d ids xids))))
      else Inr cand)"

text \<open>\<^verbatim>\<open>catalogs.catalogs.get(catname)['name']\<close>: an unknown catalogue gives \<^verbatim>\<open>None\<close>, whose
  subscript raises.\<close>

definition catalog_name :: "'w env \<Rightarrow> string \<Rightarrow> error + string" where
  "catalog_name env catname =
     (case catalogs env catname of None \<Rightarrow> Inl TypeError | Some n \<Rightarrow> Inr n)"

text \<open>Lines 115-119, the body of the loop over the external catalogues after its
  \<^verbatim>\<open>break\<close> test.\<close>

definition vizier_step ::
  "'w env \<Rightarrow> nat \<Rightarrow> string \<Rightarrow> npfloat \<Rightarrow> bool \<Rightarrow> string \<Rightarrow> mask \<Rightarrow> (mask, 'w) M" where
  "vizier_step env obj col_id sr verbose catname cand =
     bnd (get_table obj) (\<lambda>t.
     bnd (lift (select_rows t cand)) (\<lambda>sub.
     bnd (emit (EvXmatchObjects sub catname sr (xmatch_objects env sub catname sr))) (\<lambda>u.
     bnd (lift (drop_matched t col_id (xmatch_objects env sub catname sr) cand)) (\<lambda>cand'.
     bnd (lift (catalog_name env catname)) (\<lambda>n.
     bnd (log verbose (MsgRemains (np_sum cand') n)) (\<lambda>u.
     ret cand'))))))"

text \<open>Lines 111-119.\<close>

fun stage_vizier ::
  "'w env \<Rightarrow> nat \<Rightarrow> string \<Rightarrow> npfloat \<Rightarrow> bool \<Rightarrow> string list \<Rightarrow> mask \<Rightarrow> (mask, 'w) M" where
  "stage_vizier env obj col_id sr verbose [] cand h = (Inr cand, h, [])"
| "stage_vizier env obj col_id sr verbose (catname # rest) cand h =
     (if \<not> np_any cand then (Inr cand, h, [])
      else (case vizier_step env obj col_id sr verbose catname cand h of
              (Inl e, h1, ev1) \<Rightarrow> (Inl e, h1, ev1)
            | (Inr cand', h1, ev1) \<Rightarrow>
                (case stage_vizier env obj col_id sr verbose rest cand' h1 of
                   (r, h2, ev2) \<Rightarrow> (r, h2, ev1 @ ev2))))"

text \<open>Lines 121-129.\<close>

definition stage_skybot ::
  "'w env \<Rightarrow> nat \<Rightarrow> string \<Rightarrow> column option \<Rightarrow> bool \<Rightarrow> bool \<Rightarrow> mask \<Rightarrow> (mask, 'w) M" where
  "stage_skybot env obj col_id time skybot verbose cand =
     (if skybot \<and> np_any cand
      then bnd (get_table obj) (\<lambda>t.
           bnd (if time = None \<and> map_of t ''time'' \<noteq> None
                then bnd (lift (getcol t ''time'')) (\<lambda>c. ret (Some c))
                else ret time) (\<lambda>time'.
           case time' of
             None \<Rightarrow> ret cand
           | Some tm \<Rightarrow>
               bnd (lift (select_rows t cand)) (\<lambda>sub.
               bnd (emit (EvXmatchSkybot sub tm col_id (xmatch_skybot env sub tm col_id))) (\<lambda>u.
               bnd (lift (drop_matched t col_id (xmatch_skybot env sub tm col_id) cand)) (\<lambda>cand'.
               bnd (log verbose (MsgRemains (np_sum cand') ''SkyBot'')) (\<lambda>u.
               ret cand'))))))
      else ret cand)"

text \<open>Lines 131-135.\<close>

definition stage_ned ::
  "'w env \<Rightarrow> nat \<Rightarrow> string \<Rightarrow> npfloat \<Rightarrow> bool \<Rightarrow> bool \<Rightarrow> mask \<Rightarrow> (mask, 'w) M" where
  "stage_ned env obj col_id sr ned verbose cand =
     (if ned \<and> np_any cand
      then bnd (get_table obj) (\<lambda>t.
           bnd (lift (select_rows t cand)) (\<lambda>sub.
           bnd (emit (EvXmatchNed sub sr col_id (xmatch_ned env sub sr col_id))) (\<lambda>u.
           bnd (lift (drop_matched t col_id (xmatch_ned env sub sr col_id) cand)) (\<lambda>cand'.
           bnd (log verbose (MsgRemains (np_sum cand') ''NED'')) (\<lambda>u.
           ret cand')))))
      else ret cand)"

text \<open>Lines 86-94: the table the stages work on is the caller's table, or a copy of it
  with the identifier column added.\<close>

definition with_id_column :: "nat \<Rightarrow> string \<Rightarrow> (nat, 'w) M" where
  "with_id_column obj col_id =
     bnd (get_table obj) (\<lambda>t.
     if map_of t col_id = None
     then bnd (alloc t) (\<lambda>obj'.
          bnd (set_column obj' col_id (arange (len_table t))) (\<lambda>u.
          ret obj'))
     else ret obj)"

text \<open>Lines 137-142.\<close>

definition filter_return :: "nat \<Rightarrow> nat \<Rightarrow> bool \<Rightarrow> bool \<Rightarrow> mask \<Rightarrow> (filter_result, 'w) M" where
  "filter_return obj_in obj get_candidates verbose cand =
     bnd (get_table obj) (\<lambda>t.
     bnd (lift (select_rows t cand)) (\<lambda>left.
     bnd (log verbose (MsgRemaining (len_table left))) (\<lambda>u.
     if get_candidates
     then bnd (get_table obj_in) (\<lambda>tin.
          bnd (lift (select_rows tin cand)) (\<lambda>res.
          bnd (alloc res) (\<lambda>r.
          ret (Candidates r))))
     else ret (CandMask cand))))"

text \<open>Lines 101-135, the five stages in their order, from the mask of line 99.\<close>

definition filter_stages ::
  "'w env \<Rightarrow> nat \<Rightarrow> filter_opts \<Rightarrow> string \<Rightarrow> npfloat \<Rightarrow> mask \<Rightarrow> (mask, 'w) M" where
  "filter_stages env obj opts col_id sr c0 =
     bnd (stage_flagged obj (f_flagged opts) c0) (\<lambda>c1.
     bnd (stage_cat env obj (f_cat opts) (f_cat_col_ra opts) (f_cat_col_dec opts) sr
            (f_verbose opts) c1) (\<lambda>c2.
     bnd (stage_vizier env obj col_id sr (f_verbose opts) (f_vizier opts) c2) (\<lambda>c3.
     bnd (stage_skybot env obj col_id (f_time opts) (f_skybot opts) (f_verbose opts) c3) (\<lambda>c4.
     stage_ned env obj col_id sr (f_ned opts) (f_verbose opts) c4))))"

definition filter_transient_candidates ::
  "'w env \<Rightarrow> nat \<Rightarrow> filter_opts \<Rightarrow> (filter_result, 'w) M" where
  "filter_transient_candidates env obj_in opts =
     bnd (get_table obj_in) (\<lambda>t0.
     bnd (lift (default_radius env t0 (f_sr opts) (f_pixscale opts))) (\<lambda>sr.
     bnd (ret (case f_col_id opts of None \<Rightarrow> ''stdpipe_id'' | Some c \<Rightarrow> c)) (\<lambda>col_id.
     bnd (with_id_column obj_in col_id) (\<lambda>obj.
     bnd (get_table obj) (\<lambda>t.
     bnd (log (f_verbose opts) (MsgFilterStart (len_table t) sr)) (\<lambda>u.
     bnd (filter_stages env obj opts col_id sr (replicate (len_table t) True)) (\<lambda>cand.
     filter_return obj_in obj (f_get_candidates opts) (f_verbose opts) cand)))))))"

section \<open>calibrate_photometry\<close>

record calib_opts =
  c_sr :: "npfloat option"
  c_pixscale :: "real option"
  c_order :: int
  c_threshold :: real
  c_cat_col_mag :: string
  c_cat_col_mag1 :: "string option"
  c_cat_col_mag2 :: "string option"
  c_cat_col_ra :: string
  c_cat_col_dec :: string
  c_update :: bool
  c_verbose :: bool

text \<open>Truth value of a column name that may be \<^verbatim>\<open>None\<close> or empty.\<close>

definition truthy :: "string option \<Rightarrow> bool" where
  "truthy ko = (case ko of None \<Rightarrow> False | Some k \<Rightarrow> k \<noteq> [])"

text \<open>\<^verbatim>\<open>cat[cat_col_mag1]-cat[cat_col_mag2]\<close> (line 170).\<close>

definition color_expr :: "table \<Rightarrow> string option \<Rightarrow> string option \<Rightarrow> error + column" where
  "color_expr cat k1 k2 =
     (case getcol_opt cat k1 of
        Inl e \<Rightarrow> Inl e
      | Inr a \<Rightarrow>
          (case getcol_opt cat k2 of
             Inl e \<Rightarrow> Inl e
           | Inr b \<Rightarrow>
               (if length a = length b then Inr (map (\<lambda>(x, y). x - y) (zip a b))
                else Inl ValueError)))"

text \<open>Lines 174-182.\<close>

definition calib_finish ::
  "nat \<Rightarrow> calib_opts \<Rightarrow> match_result option \<Rightarrow> (match_result option, 'w) M" where
  "calib_finish obj opts m =
     (case m of
        Some mr \<Rightarrow>
          bnd (log (c_verbose opts) MsgCalibDone) (\<lambda>u.
          bnd (if color_term mr \<noteq> None \<and> the (color_term mr) \<noteq> 0
               then log (c_verbose opts) (MsgColorTerm (the (color_term mr)))
               else ret ()) (\<lambda>u.
          bnd (if c_update opts
               then bnd (get_table obj) (\<lambda>t.
                    bnd (lift (getcol t ''mag'')) (\<lambda>mag.
                    bnd (lift (getcol t ''x'')) (\<lambda>x.
                    bnd (lift (getcol t ''y'')) (\<lambda>y.
                    bnd (lift (np_add mag (zero_fn mr x y))) (\<lambda>calib.
                    set_column obj ''mag_calib'' calib)))))
               else ret ()) (\<lambda>u.
          ret m)))
      | None \<Rightarrow>
          bnd (log (c_verbose opts) MsgCalibFailed) (\<lambda>u. ret m))"

definition calibrate_photometry ::
  "'w env \<Rightarrow> nat \<Rightarrow> table \<Rightarrow> calib_opts \<Rightarrow> (match_result option, 'w) M" where
  "calibrate_photometry env obj cat opts =
     bnd (get_table obj) (\<lambda>t.
     bnd (lift (default_radius env t (c_sr opts) (c_pixscale opts))) (\<lambda>sr.
     bnd (log (c_verbose opts) (MsgCalibStart (len_table t) (len_table cat))) (\<lambda>u.
     bnd (log (c_verbose opts) (MsgCalibUsing sr (c_cat_col_mag opts) (c_order opts))) (\<lambda>u.
     bnd (if truthy (c_cat_col_mag1 opts) \<and> truthy (c_cat_col_mag2 opts)
          then log (c_verbose opts)
                 (MsgColor (the (c_cat_col_mag1 opts)) (the (c_cat_col_mag2 opts)))
          else ret ()) (\<lambda>u.
     bnd (lift (getcol t ''ra'')) (\<lambda>ra.
     bnd (lift (getcol t ''dec'')) (\<lambda>dec.
     bnd (lift (getcol t ''mag'')) (\<lambda>mag.
     bnd (lift (getcol t ''magerr'')) (\<lambda>magerr.
     bnd (lift (getcol t ''flags'')) (\<lambda>flags.
     bnd (lift (getcol cat (c_cat_col_ra opts))) (\<lambda>cra.
     bnd (lift (getcol cat (c_cat_col_dec opts))) (\<lambda>cdec.
     bnd (lift (getcol cat (c_cat_col_mag opts))) (\<lambda>cmag.
     bnd (lift (color_expr cat (c_cat_col_mag1 opts) (c_cat_col_mag2 opts))) (\<lambda>color.
     bnd (lift (getcol t ''x'')) (\<lambda>x.
     bnd (lift (getcol t ''y'')) (\<lambda>y.
     bnd (call_match env
            \<lparr> obj_ra = ra, obj_dec = dec, obj_mag = mag, obj_magerr = magerr,
              obj_flags = flags, cat_ra = cra, cat_dec = cdec, cat_mag = cmag,
              cat_magerr = None, match_sr = sr, cat_color = Some color,
              obj_x = Some x, obj_y = Some y, spatial_order = Some (c_order opts),
              threshold = Some (c_threshold opts) \<rparr>) (\<lambda>m.
     calib_finish obj opts m)))))))))))))))))"

section \<open>Observations on events, and example inputs\<close>

definition refine_defaults :: "nat refine_opts" where
  "refine_defaults =
     \<lparr> r_sr = Num (10 / 3600), r_wcs = None, r_order = 0, r_cat_col_mag = ''V'',
       r_cat_col_mag_err = None, r_cat_col_ra = ''RAJ2000'', r_cat_col_dec = ''DEJ2000'',
       r_cat_col_ra_err = ''e_RAJ2000'', r_cat_col_dec_err = ''e_DEJ2000'', r_n_iter = 3,
       r_use_photometry = True, r_min_matches = 5, r_method = ''astropy'', r_update = True,
       r_verbose = False \<rparr>"

definition filter_defaults :: filter_opts where
  "filter_defaults =
     \<lparr> f_sr = None, f_pixscale = None, f_time = None, f_cat = None,
       f_cat_col_ra = ''RAJ2000'', f_cat_col_dec = ''DEJ2000'',
       f_vizier = [''ps1'', ''usnob1'', ''gsc''], f_skybot = True, f_ned = False,
       f_flagged = True, f_col_id = None, f_get_candidates = True, f_verbose = False \<rparr>"

definition calib_defaults :: calib_opts where
  "calib_defaults =
     \<lparr> c_sr = None, c_pixscale = None, c_order = 0, c_threshold = 5, c_cat_col_mag = ''R'',
       c_cat_col_mag1 = None, c_cat_col_mag2 = None, c_cat_col_ra = ''RAJ2000'',
       c_cat_col_dec = ''DEJ2000'', c_update = True, c_verbose = False \<rparr>"

definition example_obj :: table where
  "example_obj =
     [(''x'', [1, 2]), (''y'', [3, 4]), (''ra'', [10, 11]), (''dec'', [20, 21]),
      (''mag'', [15, 16]), (''magerr'', [1, 1]), (''flags'', [0, 1]), (''fwhm'', [3, 5])]"

definition example_cat :: table where
  "example_cat =
     [(''RAJ2000'', [10]), (''DEJ2000'', [20]), (''V'', [15]), (''R'', [14]), (''B'', [16])]"

definition example_match :: match_result where
  "example_match =
     \<lparr> idx = [True], oidx = [0], cidx = [0], dist = [0], color_term = None,
       zero_fn = (\<lambda>x y. map (\<lambda>v. 2) x) \<rparr>"

definition exact_times :: "column \<Rightarrow> real \<Rightarrow> column" where
  "exact_times c p = map (\<lambda>x. x * p) c"

definition exact_median :: "column \<Rightarrow> npfloat" where
  "exact_median xs =
     (if xs = [] then NaN
      else (let s = sort xs; n = length xs in
            if odd n then Num (s ! (n div 2))
            else Num ((s ! (n div 2 - 1) + s ! (n div 2)) / 2)))"

definition exact_div :: "npfloat \<Rightarrow> real \<Rightarrow> npfloat" where
  "exact_div x d = (case x of NaN \<Rightarrow> NaN | Num r \<Rightarrow> Num (r / d))"

definition example_env :: "match_result option \<Rightarrow> nat env" where
  "example_env m =
     \<lparr> pix2world = (\<lambda>w p. (fst p + real w, snd p + real w)),
       photometry_match = (\<lambda>a. m),
       refine_wcs = (\<lambda>t c ord sr mt meth. Some (length t)),
       refine_wcs_scamp = (\<lambda>t c a. (Some 9, t)),
       htm_match = (\<lambda>ra dec cra cdec sr. []),
       xmatch_objects = (\<lambda>t n sr. None),
       xmatch_skybot = (\<lambda>t tm k. None),
       xmatch_ned = (\<lambda>t sr k. None),
       catalogs = (\<lambda>n. Some n),
       np_times = exact_times, np_median = exact_median, float_div = exact_div \<rparr>"


definition is_match :: "'w event \<Rightarrow> bool" where
  "is_match e = (case e of EvPhotMatch a r \<Rightarrow> True | _ \<Rightarrow> False)"

definition is_fit :: "'w event \<Rightarrow> bool" where
  "is_fit e = (case e of EvRefineWcs t c ord sr mt meth w \<Rightarrow> True | _ \<Rightarrow> False)"

definition is_query :: "'w event \<Rightarrow> bool" where
  "is_query e =
     (case e of
        EvXmatchObjects t n sr r \<Rightarrow> True
      | EvXmatchSkybot t tm k r \<Rightarrow> True
      | EvXmatchNed t sr k r \<Rightarrow> True
      | _ \<Rightarrow> False)"

definition evs_sat :: "('w event \<Rightarrow> bool) \<Rightarrow> ('a, 'w) M \<Rightarrow> bool" where
  "evs_sat Q m = (\<forall>h. list_all Q (snd (snd (m h))))"

definition keeps_heap :: "('a, 'w) M \<Rightarrow> bool" where
  "keeps_heap m = (\<forall>h. fst (snd (m h)) = h)"

definition radius_of :: "'w event \<Rightarrow> npfloat option" where
  "radius_of e =
     (case e of
        Print m \<Rightarrow>
          (case m of
             MsgFilterStart n sr \<Rightarrow> Some sr
           | MsgCalibUsing sr k ord \<Rightarrow> Some sr
           | _ \<Rightarrow> None)
      | EvPhotMatch a r \<Rightarrow> Some (match_sr a)
      | EvHtmMatch ra dec cra cdec sr r \<Rightarrow> Some sr
      | EvXmatchObjects t n sr r \<Rightarrow> Some sr
      | EvXmatchNed t sr k r \<Rightarrow> Some sr
      | _ \<Rightarrow> None)"

definition uses_radius :: "npfloat \<Rightarrow> 'w event \<Rightarrow> bool" where
  "uses_radius sr e = (case radius_of e of None \<Rightarrow> True | Some r \<Rightarrow> r = sr)"

definition has_color :: "table \<Rightarrow> string option \<Rightarrow> string option \<Rightarrow> 'w event \<Rightarrow> bool" where
  "has_color cat k1 k2 e =
     (case e of
        EvPhotMatch a r \<Rightarrow>
          (case color_expr cat k1 k2 of Inl err \<Rightarrow> False | Inr c \<Rightarrow> cat_color a = Some c)
      | _ \<Rightarrow> True)"

definition fails :: "('a, 'w) M \<Rightarrow> bool" where
  "fails m = (\<forall>h. \<exists>e. fst (m h) = Inl e)"

definition in_loop :: "'w event \<Rightarrow> bool" where
  "in_loop e = (is_match e \<or> is_fit e)"

definition narrows :: "mask \<Rightarrow> mask \<Rightarrow> bool" where
  "narrows new old = list_all2 (\<lambda>p q. p \<longrightarrow> q) new old"

definition reprojected :: "'w env \<Rightarrow> 'w \<Rightarrow> table \<Rightarrow> error + table" where
  "reprojected env w t =
     (case getcol t ''x'' of
        Inl e \<Rightarrow> Inl e
      | Inr x \<Rightarrow>
          (case getcol t ''y'' of
             Inl e \<Rightarrow> Inl e
           | Inr y \<Rightarrow>
               (case all_pix2world env w x y of
                  Inl e \<Rightarrow> Inl e
                | Inr rd \<Rightarrow>
                    (case setcol t ''ra'' (fst rd) of
                       Inl e \<Rightarrow> Inl e
                     | Inr t1 \<Rightarrow> setcol t1 ''dec'' (snd rd)))))"


definition carries_radius :: "npfloat \<Rightarrow> 'w event \<Rightarrow> bool" where
  "carries_radius sr e = (radius_of e = Some sr)"




definition example_refine_opts :: "nat refine_opts" where
  "example_refine_opts =
     refine_defaults \<lparr> r_wcs := Some 1, r_n_iter := 1, r_min_matches := 1, r_update := False \<rparr>"

fun fit_results :: "'w event list \<Rightarrow> 'w option list" where
  "fit_results [] = []"
| "fit_results (EvRefineWcs t c ord sr mt meth w # es) = w # fit_results es"
| "fit_results (e # es) = fit_results es"

definition sufficient :: "int \<Rightarrow> 'w event \<Rightarrow> bool" where
  "sufficient min_matches e =
     (case e of
        EvPhotMatch a r \<Rightarrow>
          (case r of None \<Rightarrow> False | Some m \<Rightarrow> min_matches \<le> int (np_sum (idx m)))
      | _ \<Rightarrow> True)"

definition loop_pattern :: "bool \<Rightarrow> nat \<Rightarrow> bool list" where
  "loop_pattern use_photometry n =
     concat (replicate n (if use_photometry then [True, False] else [False]))"

definition example_env_fit :: "nat env" where
  "example_env_fit =
     (example_env (Some example_match))
       \<lparr> refine_wcs :=
           (\<lambda>t c ord sr mt meth.
              case map_of t ''ra'' of Some (v # vs) \<Rightarrow> Some (nat \<lfloor>v\<rfloor>) | _ \<Rightarrow> None) \<rparr>"

definition example_loop_opts :: "nat refine_opts" where
  "example_loop_opts = refine_defaults \<lparr> r_min_matches := 1 \<rparr>"

section \<open>Properties\<close>

lemma bnd_ret: "bnd (ret x) f = f x"
  by (auto simp: bnd_def ret_def fun_eq_iff split: prod.splits)

lemma bnd_raise: "bnd (raise e) f = raise e"
  by (auto simp: bnd_def raise_def fun_eq_iff)

lemma lift_Inr: "lift (Inr x) = ret x"
  by (simp add: lift_def)

lemma lift_Inl: "lift (Inl e) = raise e"
  by (simp add: lift_def)

lemma bnd_get_table: "bnd (get_table r) f h = f (h ! r) h"
  by (auto simp: bnd_def get_table_def split: prod.splits)

lemma bnd_emit: "bnd (emit e) f h = (case f () h of (r, h', ev) \<Rightarrow> (r, h', e # ev))"
  by (auto simp: bnd_def emit_def split: prod.splits)

lemma bnd_InrE:
  assumes "bnd m f h = (Inr y, h', ev)"
  obtains x h1 ev1 ev2 where "m h = (Inr x, h1, ev1)" "f x h1 = (Inr y, h', ev2)" "ev = ev1 @ ev2"
  using assms by (auto simp: bnd_def split: prod.splits sum.splits)

lemma lift_InrE:
  assumes "lift r h = (Inr y, h', ev)"
  obtains "r = Inr y" "h' = h" "ev = []"
  using assms by (cases r) (auto simp: lift_def ret_def raise_def)

lemma bnd_assoc: "bnd (bnd m f) g = bnd m (\<lambda>x. bnd (f x) g)"
  by (auto simp: bnd_def fun_eq_iff split: prod.splits sum.splits)

lemma ret_app: "ret x h = (Inr x, h, [])"
  by (simp add: ret_def)

lemma raise_app: "raise e h = (Inl e, h, [])"
  by (simp add: raise_def)

lemma bnd_alloc: "bnd (alloc t) f h = f (length h) (h @ [t])"
  by (auto simp: bnd_def alloc_def split: prod.splits)

lemma bnd_set_column:
  "bnd (set_column r k c) f h =
     (case setcol (h ! r) k c of Inl e \<Rightarrow> (Inl e, h, []) | Inr t \<Rightarrow> f () (h[r := t]))"
  by (auto simp: bnd_def set_column_def split: prod.splits sum.splits)

lemma bnd_log:
  "bnd (log v m) f h =
     (if v then (case f () h of (r, h', ev) \<Rightarrow> (r, h', Print m # ev)) else f () h)"
  by (simp add: log_def bnd_emit bnd_ret)

lemmas monad_defs = bnd_def ret_def raise_def lift_def emit_def log_def get_table_def alloc_def
  set_column_def

lemmas array_defs = getcol_def getcol_opt_def setcol_def len_table_def select_rows_def
  take_rows_def pick_def pick_checked_def np_sum_def np_any_def mask_and_def mask_clear_def
  in1d_def arange_def np_add_def exact_times_def exact_median_def exact_div_def

lemmas refine_defs = refine_astrometry_def refine_iteration_def photometric_fit_def too_few_def
  fit_matched_def call_match_def call_refine_wcs_def call_scamp_def reproject_def
  subscript_idx_def all_pix2world_def scamp_args_of_def

text \<open>
  Claim C1. With photometric matching, a match that yields nothing or too few good pairs
  should make \<^verbatim>\<open>refine_astrometry\<close> return \<^verbatim>\<open>None\<close>. When the match primitive itself
  returns \<^verbatim>\<open>None\<close>, the message argument on line 51 subscripts it, and the call raises
  \<^verbatim>\<open>TypeError\<close> instead: here on the example table with the default options.
\<close>

theorem refine_match_none_raises:
  "fst (refine_astrometry (example_env None) 0 example_cat refine_defaults [example_obj])
     = Inl TypeError"
  by (simp add: refine_defs monad_defs array_defs refine_defaults_def example_obj_def
       example_cat_def example_env_def upt_conv_Cons)

lemma evs_sat_ret: "evs_sat Q (ret x)"
  by (simp add: evs_sat_def ret_def)

lemma evs_sat_raise: "evs_sat Q (raise e)"
  by (simp add: evs_sat_def raise_def)

lemma evs_sat_lift: "evs_sat Q (lift r)"
  by (cases r) (simp_all add: lift_def evs_sat_ret evs_sat_raise)

lemma evs_sat_get_table: "evs_sat Q (get_table r)"
  by (simp add: evs_sat_def get_table_def)

lemma evs_sat_alloc: "evs_sat Q (alloc t)"
  by (simp add: evs_sat_def alloc_def)

lemma evs_sat_set_column: "evs_sat Q (set_column r k c)"
  by (simp add: evs_sat_def set_column_def split: sum.splits)

lemma evs_sat_emit: "Q e \<Longrightarrow> evs_sat Q (emit e)"
  by (simp add: evs_sat_def emit_def)

lemma evs_sat_log: "(v \<Longrightarrow> Q (Print m)) \<Longrightarrow> evs_sat Q (log v m)"
  by (simp add: log_def evs_sat_emit evs_sat_ret)

lemma evs_sat_bnd: "evs_sat Q m \<Longrightarrow> (\<And>x. evs_sat Q (f x)) \<Longrightarrow> evs_sat Q (bnd m f)"
  by (auto simp: evs_sat_def bnd_def split: prod.splits sum.splits)
     (metis snd_conv)+

lemma evs_sat_if: "(c \<Longrightarrow> evs_sat Q a) \<Longrightarrow> (\<not> c \<Longrightarrow> evs_sat Q b) \<Longrightarrow> evs_sat Q (if c then a else b)"
  by simp

lemmas evs_sat_intros = evs_sat_bnd evs_sat_ret evs_sat_raise evs_sat_lift evs_sat_get_table
  evs_sat_alloc evs_sat_set_column evs_sat_if

lemma keeps_heap_ret: "keeps_heap (ret x)"
  by (simp add: keeps_heap_def ret_def)

lemma keeps_heap_raise: "keeps_heap (raise e)"
  by (simp add: keeps_heap_def raise_def)

lemma keeps_heap_lift: "keeps_heap (lift r)"
  by (cases r) (simp_all add: lift_def keeps_heap_ret keeps_heap_raise)

lemma keeps_heap_get_table: "keeps_heap (get_table r)"
  by (simp add: keeps_heap_def get_table_def)

lemma keeps_heap_emit: "keeps_heap (emit e)"
  by (simp add: keeps_heap_def emit_def)

lemma keeps_heap_log: "keeps_heap (log v m)"
  by (simp add: log_def keeps_heap_emit keeps_heap_ret)

lemma keeps_heap_bnd: "keeps_heap m \<Longrightarrow> (\<And>x. keeps_heap (f x)) \<Longrightarrow> keeps_heap (bnd m f)"
  by (auto simp: keeps_heap_def bnd_def split: prod.splits sum.splits)
     (metis fst_conv snd_conv)+

lemma keeps_heap_if:
  "(c \<Longrightarrow> keeps_heap a) \<Longrightarrow> (\<not> c \<Longrightarrow> keeps_heap b) \<Longrightarrow> keeps_heap (if c then a else b)"
  by simp

lemmas keeps_heap_intros = keeps_heap_bnd keeps_heap_ret keeps_heap_raise keeps_heap_lift
  keeps_heap_get_table keeps_heap_emit keeps_heap_log keeps_heap_if

lemmas filter_defs = filter_transient_candidates_def filter_stages_def filter_return_def
  with_id_column_def stage_flagged_def stage_cat_def stage_skybot_def stage_ned_def
  vizier_step_def drop_matched_def catalog_name_def default_radius_def

lemmas example_defs = refine_defaults_def filter_defaults_def calib_defaults_def example_obj_def
  example_cat_def example_env_def example_match_def

text \<open>
  Claim C10. Without \<^verbatim>\<open>verbose\<close>, \<^verbatim>\<open>filter_transient_candidates\<close> should print nothing.
  The flagged-removal stage writes its count with \<^verbatim>\<open>print\<close> (line 104), so a quiet call
  on the example table prints the number of unflagged objects.
\<close>

theorem filter_prints_when_quiet:
  "\<not> f_verbose (filter_defaults\<lparr>f_vizier := [], f_skybot := False\<rparr>) \<and>
   snd (snd (filter_transient_candidates (example_env None) 0
               (filter_defaults\<lparr>f_vizier := [], f_skybot := False\<rparr>) [example_obj]))
     = [Print (MsgUnflagged 1)]"
  by (simp add: filter_defs monad_defs array_defs example_defs)

lemma filter_default_run:
  "fst (filter_transient_candidates (example_env None) 0 filter_defaults [example_obj])
     = Inr (Candidates 2)"
  by (simp add: filter_defs monad_defs array_defs example_defs)

lemma evs_sat_app: "evs_sat Q m \<Longrightarrow> list_all Q (snd (snd (m h)))"
  by (simp add: evs_sat_def)

lemma evs_sat_case_option:
  "(x = None \<Longrightarrow> evs_sat Q a) \<Longrightarrow> (\<And>y. x = Some y \<Longrightarrow> evs_sat Q (b y)) \<Longrightarrow>
   evs_sat Q (case x of None \<Rightarrow> a | Some y \<Rightarrow> b y)"
  by (cases x) simp_all

lemma evs_sat_stage_vizier:
  assumes "\<And>catname cand. evs_sat Q (vizier_step env obj col_id sr verbose catname cand)"
  shows "evs_sat Q (stage_vizier env obj col_id sr verbose names cand)"
proof -
  have "list_all Q (snd (snd (stage_vizier env obj col_id sr verbose names cand h)))" for h
  proof (induction names arbitrary: cand h)
    case Nil
    show ?case by simp
  next
    case (Cons n ns)
    have step: "list_all Q (snd (snd (vizier_step env obj col_id sr verbose n cand h)))"
      using assms by (simp add: evs_sat_def)
    show ?case
    proof (cases "np_any cand")
      case False
      then show ?thesis by simp
    next
      case True
      obtain r h1 ev1 where v: "vizier_step env obj col_id sr verbose n cand h = (r, h1, ev1)"
        by (cases "vizier_step env obj col_id sr verbose n cand h") auto
      show ?thesis
      proof (cases r)
        case (Inl e)
        with True v step show ?thesis by simp
      next
        case (Inr c')
        obtain r2 h2 ev2 where
          w: "stage_vizier env obj col_id sr verbose ns c' h1 = (r2, h2, ev2)"
          by (cases "stage_vizier env obj col_id sr verbose ns c' h1") auto
        have "list_all Q ev2" using Cons.IH [of c' h1] w by simp
        with True v step Inr w show ?thesis by simp
      qed
    qed
  qed
  then show ?thesis by (simp add: evs_sat_def)
qed

lemma uses_radius_simps:
  "uses_radius sr (Print (MsgFilterStart n sr))"
  "uses_radius sr (Print (MsgCalibUsing sr k ord))"
  "uses_radius sr (Print (MsgUnflagged n))"
  "uses_radius sr (Print (MsgNotMatched n))"
  "uses_radius sr (Print (MsgRemains n s))"
  "uses_radius sr (Print (MsgRemaining n))"
  "uses_radius sr (Print (MsgCalibStart n k2))"
  "uses_radius sr (Print (MsgColor s1 s2))"
  "uses_radius sr (Print MsgCalibDone)"
  "uses_radius sr (Print (MsgColorTerm c))"
  "uses_radius sr (Print MsgCalibFailed)"
  "uses_radius sr (EvHtmMatch ra dec cra cdec sr r)"
  "uses_radius sr (EvXmatchObjects t s sr r1)"
  "uses_radius sr (EvXmatchSkybot t tm s r1)"
  "uses_radius sr (EvXmatchNed t sr s r1)"
  "uses_radius sr (EvPhotMatch a mr) = (match_sr a = sr)"
  by (simp_all add: uses_radius_def radius_of_def)

lemma radius_stages:
  "evs_sat (uses_radius sr) (filter_stages env obj opts col_id sr c0)"
  unfolding filter_stages_def stage_flagged_def stage_cat_def stage_skybot_def stage_ned_def
  by (intro evs_sat_intros evs_sat_emit evs_sat_log evs_sat_case_option evs_sat_stage_vizier
        uses_radius_simps; unfold vizier_step_def;
      intro evs_sat_intros evs_sat_emit evs_sat_log uses_radius_simps)

lemma radius_filter_rest:
  "evs_sat (uses_radius sr)
     (bnd (with_id_column obj_in col_id) (\<lambda>obj.
      bnd (get_table obj) (\<lambda>t.
      bnd (log v (MsgFilterStart (len_table t) sr)) (\<lambda>u.
      bnd (filter_stages env obj opts col_id sr (replicate (len_table t) True)) (\<lambda>cand.
      filter_return obj_in obj g v cand)))))"
  unfolding with_id_column_def filter_return_def
  by (intro evs_sat_intros evs_sat_emit evs_sat_log radius_stages uses_radius_simps)

lemma radius_filter:
  assumes "default_radius env (h ! obj) (f_sr opts) (f_pixscale opts) = Inr sr"
  shows "list_all (uses_radius sr) (snd (snd (filter_transient_candidates env obj opts h)))"
  unfolding filter_transient_candidates_def
  by (simp add: bnd_get_table assms lift_Inr bnd_ret evs_sat_app [OF radius_filter_rest])

lemma fails_raise: "fails (raise e)"
  by (simp add: fails_def raise_def)

lemma fails_bnd_left: "fails m \<Longrightarrow> fails (bnd m f)"
  by (auto simp: fails_def bnd_def split: prod.splits sum.splits) (metis fst_conv sum.distinct(1))

lemma fails_bnd_right: "(\<And>x. fails (f x)) \<Longrightarrow> fails (bnd m f)"
  by (auto simp: fails_def bnd_def split: prod.splits sum.splits) (metis fst_conv sum.distinct(1))

lemma fails_app: "fails m \<Longrightarrow> \<exists>e. fst (m h) = Inl e"
  by (simp add: fails_def)

lemma radius_calib_rest:
  "evs_sat (uses_radius sr)
     (bnd (log v (MsgCalibStart n1 n2)) (\<lambda>u.
      bnd (log v (MsgCalibUsing sr k ord)) (\<lambda>u.
      bnd (if c then log v (MsgColor s1 s2) else ret ()) (\<lambda>u.
      bnd (lift g1) (\<lambda>ra.
      bnd (lift g2) (\<lambda>dec.
      bnd (lift g3) (\<lambda>mag.
      bnd (lift g4) (\<lambda>magerr.
      bnd (lift g5) (\<lambda>flags.
      bnd (lift g6) (\<lambda>cra.
      bnd (lift g7) (\<lambda>cdec.
      bnd (lift g8) (\<lambda>cmag.
      bnd (lift g9) (\<lambda>color.
      bnd (lift g10) (\<lambda>x.
      bnd (lift g11) (\<lambda>y.
      bnd (call_match env
            \<lparr> obj_ra = ra, obj_dec = dec, obj_mag = mag, obj_magerr = magerr,
              obj_flags = flags, cat_ra = cra, cat_dec = cdec, cat_mag = cmag,
              cat_magerr = None, match_sr = sr, cat_color = Some color,
              obj_x = Some x, obj_y = Some y, spatial_order = Some ord,
              threshold = Some th \<rparr>) (\<lambda>m.
     calib_finish obj opts m))))))))))))))))"
  unfolding calib_finish_def call_match_def
  by (intro evs_sat_intros evs_sat_emit evs_sat_log evs_sat_case_option uses_radius_simps;
      simp add: uses_radius_simps)

lemma radius_calibrate:
  assumes "default_radius env (h ! obj) (c_sr opts) (c_pixscale opts) = Inr sr"
  shows "list_all (uses_radius sr) (snd (snd (calibrate_photometry env obj cat opts h)))"
  unfolding calibrate_photometry_def
  by (simp add: bnd_get_table assms lift_Inr bnd_ret evs_sat_app [OF radius_calib_rest])

lemma color_calib_rest:
  "evs_sat (has_color cat k1 k2)
     (bnd (log v (MsgCalibStart n1 n2)) (\<lambda>u.
      bnd (log v (MsgCalibUsing sr k ord)) (\<lambda>u.
      bnd (if c then log v (MsgColor s1 s2) else ret ()) (\<lambda>u.
      bnd (lift g1) (\<lambda>ra.
      bnd (lift g2) (\<lambda>dec.
      bnd (lift g3) (\<lambda>mag.
      bnd (lift g4) (\<lambda>magerr.
      bnd (lift g5) (\<lambda>flags.
      bnd (lift g6) (\<lambda>cra.
      bnd (lift g7) (\<lambda>cdec.
      bnd (lift g8) (\<lambda>cmag.
      bnd (lift (color_expr cat k1 k2)) (\<lambda>color.
      bnd (lift g10) (\<lambda>x.
      bnd (lift g11) (\<lambda>y.
      bnd (call_match env
            \<lparr> obj_ra = ra, obj_dec = dec, obj_mag = mag, obj_magerr = magerr,
              obj_flags = flags, cat_ra = cra, cat_dec = cdec, cat_mag = cmag,
              cat_magerr = None, match_sr = sr, cat_color = Some color,
              obj_x = Some x, obj_y = Some y, spatial_order = Some ord,
              threshold = Some th \<rparr>) (\<lambda>m.
     calib_finish obj opts m))))))))))))))))"
proof (cases "color_expr cat k1 k2")
  case (Inl e)
  show ?thesis
    unfolding Inl lift_Inl bnd_raise
    by (intro evs_sat_intros evs_sat_emit evs_sat_log) (simp_all add: has_color_def)
next
  case (Inr c)
  show ?thesis
    unfolding Inr lift_Inr bnd_ret calib_finish_def call_match_def
    by (intro evs_sat_intros evs_sat_emit evs_sat_log evs_sat_case_option)
       (simp_all add: has_color_def Inr)
qed

lemma color_calibrate:
  "list_all (has_color cat (c_cat_col_mag1 opts) (c_cat_col_mag2 opts))
     (snd (snd (calibrate_photometry env obj cat opts h)))"
proof (cases "default_radius env (h ! obj) (c_sr opts) (c_pixscale opts)")
  case (Inl e)
  then show ?thesis
    unfolding calibrate_photometry_def
    by (simp add: bnd_get_table lift_Inl bnd_raise raise_app)
next
  case (Inr sr)
  then show ?thesis
    unfolding calibrate_photometry_def
    by (simp add: bnd_get_table lift_Inr bnd_ret evs_sat_app [OF color_calib_rest])
qed

lemma calibrate_fails:
  assumes "color_expr cat (c_cat_col_mag1 opts) (c_cat_col_mag2 opts) = Inl e0"
  shows "\<exists>e. fst (calibrate_photometry env obj cat opts h) = Inl e"
proof -
  have "fails (calibrate_photometry env obj cat opts)"
    unfolding calibrate_photometry_def assms lift_Inl
    by (intro fails_bnd_right fails_bnd_left [of "raise e0"] fails_raise)
  then show ?thesis by (rule fails_app)
qed

lemma color_expr_None:
  "k1 = None \<or> k2 = None \<Longrightarrow> \<exists>e. color_expr cat k1 k2 = Inl e"
  by (auto simp: color_expr_def getcol_opt_def split: sum.splits option.splits)

lemma has_color_no_match:
  "color_expr cat k1 k2 = Inl e0 \<Longrightarrow> has_color cat k1 k2 e \<Longrightarrow> \<not> is_match e"
  by (cases e) (simp_all add: has_color_def is_match_def)

text \<open>
  Claim C4. Every call of \<^verbatim>\<open>photometry.match\<close> made by \<^verbatim>\<open>calibrate_photometry\<close> carries
  the evaluated colour \<^verbatim>\<open>cat[cat_col_mag1] - cat[cat_col_mag2]\<close>, whether or not colour
  columns were asked for; with either name left at \<^verbatim>\<open>None\<close> the call raises and no match
  is made, so a calibration without colour term cannot be reached.
\<close>

theorem calibrate_color_unconditional:
  "list_all (has_color cat (c_cat_col_mag1 opts) (c_cat_col_mag2 opts))
     (snd (snd (calibrate_photometry env obj cat opts h))) \<and>
   (c_cat_col_mag1 opts = None \<or> c_cat_col_mag2 opts = None \<longrightarrow>
      (\<exists>e. fst (calibrate_photometry env obj cat opts h) = Inl e) \<and>
      \<not> list_ex is_match (snd (snd (calibrate_photometry env obj cat opts h))))"
proof (intro conjI impI)
  show all: "list_all (has_color cat (c_cat_col_mag1 opts) (c_cat_col_mag2 opts))
     (snd (snd (calibrate_photometry env obj cat opts h)))"
    by (rule color_calibrate)
  assume "c_cat_col_mag1 opts = None \<or> c_cat_col_mag2 opts = None"
  then obtain e0 where e0: "color_expr cat (c_cat_col_mag1 opts) (c_cat_col_mag2 opts) = Inl e0"
    using color_expr_None by blast
  show "\<exists>e. fst (calibrate_photometry env obj cat opts h) = Inl e"
    using e0 by (rule calibrate_fails)
  show "\<not> list_ex is_match (snd (snd (calibrate_photometry env obj cat opts h)))"
    using all has_color_no_match [OF e0]
    by (auto simp: list_all_iff list_ex_iff)
qed

theorem calibrate_color_unconditional_witness:
  "c_cat_col_mag1 calib_defaults = None \<and>
   (\<exists>e. fst (calibrate_photometry (example_env (Some example_match)) 0 example_cat
              calib_defaults [example_obj]) = Inl e) \<and>
   \<not> list_ex is_match
       (snd (snd (calibrate_photometry (example_env (Some example_match)) 0 example_cat
                    calib_defaults [example_obj])))"
  using calibrate_color_unconditional [of example_cat calib_defaults
      "example_env (Some example_match)" 0 "[example_obj]"]
  by (simp add: calib_defaults_def)

lemma evs_sat_call_scamp: "evs_sat (\<lambda>e. \<not> in_loop e) (call_scamp env obj cat opts)"
  by (simp add: evs_sat_def call_scamp_def in_loop_def is_match_def is_fit_def
        split: prod.splits)

lemma in_loop_Print: "\<not> in_loop (Print m)"
  by (simp add: in_loop_def is_match_def is_fit_def)

lemma evs_sat_reproject: "evs_sat Q (reproject env obj w)"
  unfolding reproject_def by (intro evs_sat_intros)

lemma scamp_events:
  assumes "r_method opts = ''scamp''"
  shows "evs_sat (\<lambda>e. \<not> in_loop e) (refine_astrometry env obj cat opts)"
  unfolding refine_astrometry_def assms if_True
  by (intro evs_sat_intros evs_sat_log evs_sat_case_option evs_sat_reproject
        evs_sat_call_scamp in_loop_Print) simp

lemma log_InrE:
  assumes "log v m h = (Inr y, h', ev)"
  obtains "h' = h"
  using assms by (auto simp: log_def emit_def ret_def split: if_splits)

lemma scamp_result:
  assumes "r_method opts = ''scamp''"
    and "refine_astrometry env obj cat opts h = (Inr w, h', ev)"
  shows "\<exists>t pre. ev = pre @ [EvScamp t cat (scamp_args_of opts) w] \<and>
           w = fst (refine_wcs_scamp env t cat (scamp_args_of opts))"
proof -
  from assms(2) obtain u h1 ev1 ev2 where
    "call_scamp env obj cat opts h1 = (Inr w, h', ev2)" and "ev = ev1 @ ev2"
    unfolding refine_astrometry_def using assms(1)
    by (auto elim!: bnd_InrE simp: append_assoc [symmetric] simp del: append_assoc)
  then show ?thesis
    by (auto simp: call_scamp_def split: prod.splits)
qed

text \<open>
  Claim C5. With \<^verbatim>\<open>method='scamp'\<close> the loop of \<^verbatim>\<open>refine_astrometry\<close> is never entered:
  no call of \<^verbatim>\<open>photometry.match\<close> or \<^verbatim>\<open>astrometry.refine_wcs\<close> is made, and a call that
  returns gives back what \<^verbatim>\<open>astrometry.refine_wcs_scamp\<close>, its last call, returned.
\<close>

theorem scamp_bypasses_loop:
  assumes "r_method opts = ''scamp''"
  shows "\<not> list_ex in_loop (snd (snd (refine_astrometry env obj cat opts h))) \<and>
         (\<forall>w. fst (refine_astrometry env obj cat opts h) = Inr w \<longrightarrow>
            (\<exists>t pre. snd (snd (refine_astrometry env obj cat opts h))
                        = pre @ [EvScamp t cat (scamp_args_of opts) w] \<and>
                     w = fst (refine_wcs_scamp env t cat (scamp_args_of opts))))"
proof (intro conjI allI impI)
  show "\<not> list_ex in_loop (snd (snd (refine_astrometry env obj cat opts h)))"
    using evs_sat_app [OF scamp_events [OF assms], of env obj cat h]
    by (auto simp: list_all_iff list_ex_iff)
next
  fix w assume "fst (refine_astrometry env obj cat opts h) = Inr w"
  then have "refine_astrometry env obj cat opts h
      = (Inr w, fst (snd (refine_astrometry env obj cat opts h)),
         snd (snd (refine_astrometry env obj cat opts h)))"
    by (metis prod.collapse)
  from scamp_result [OF assms this]
  show "\<exists>t pre. snd (snd (refine_astrometry env obj cat opts h))
                        = pre @ [EvScamp t cat (scamp_args_of opts) w] \<and>
                     w = fst (refine_wcs_scamp env t cat (scamp_args_of opts))" .
qed

theorem scamp_bypasses_loop_witness:
  "r_method (refine_defaults\<lparr>r_method := ''scamp''\<rparr>) = ''scamp'' \<and>
   fst (refine_astrometry (example_env None) 0 example_cat
          (refine_defaults\<lparr>r_method := ''scamp''\<rparr>) [example_obj]) = Inr (Some 9) \<and>
   \<not> list_ex in_loop
       (snd (snd (refine_astrometry (example_env None) 0 example_cat
                    (refine_defaults\<lparr>r_method := ''scamp''\<rparr>) [example_obj])))"
  using scamp_bypasses_loop [of "refine_defaults\<lparr>r_method := ''scamp''\<rparr>"
      "example_env None" 0 example_cat "[example_obj]"]
  by (simp add: refine_defs monad_defs array_defs example_defs)

lemma narrows_refl: "narrows c c"
  by (simp add: narrows_def list_all2_same)

lemma narrows_trans: "narrows a b \<Longrightarrow> narrows b c \<Longrightarrow> narrows a c"
  unfolding narrows_def
  by (erule (1) list_all2_trans [rotated]) simp

lemma narrows_empty: "narrows c' c \<Longrightarrow> \<not> np_any c \<Longrightarrow> \<not> np_any c'"
  unfolding narrows_def np_any_def
  by (induction c' c rule: list_all2_induct) auto

lemma narrows_mask_and: "mask_and a b = Inr c \<Longrightarrow> narrows c a"
  by (auto simp: mask_and_def narrows_def list_all2_conv_all_nth split: if_splits)

lemma narrows_mask_clear: "mask_clear a js = Inr c \<Longrightarrow> narrows c a"
  by (auto simp: mask_clear_def narrows_def list_all2_conv_all_nth nth_enumerate_eq
      split: if_splits)

lemma narrows_drop_matched: "drop_matched t k xcat a = Inr c \<Longrightarrow> narrows c a"
  by (auto simp: drop_matched_def narrows_refl dest: narrows_mask_and
      split: if_splits sum.splits)

lemma ret_InrD: "ret x h = (Inr y, h', ev) \<Longrightarrow> y = x \<and> h' = h"
  by (simp add: ret_def)

lemma get_table_InrD: "get_table r h = (Inr y, h', ev) \<Longrightarrow> y = h ! r \<and> h' = h"
  by (auto simp: get_table_def)

lemma emit_InrD: "emit e h = (Inr y, h', ev) \<Longrightarrow> h' = h"
  by (auto simp: emit_def)

lemma log_InrD: "log v m h = (Inr y, h', ev) \<Longrightarrow> h' = h"
  by (auto simp: log_def emit_def ret_def split: if_splits)

lemma lift_InrD: "lift r h = (Inr y, h', ev) \<Longrightarrow> r = Inr y \<and> h' = h"
  by (cases r) (auto simp: lift_def ret_def raise_def)

lemmas InrDs = ret_InrD get_table_InrD emit_InrD log_InrD lift_InrD

lemma narrows_stage_flagged:
  assumes "stage_flagged obj fl cand h = (Inr c', h', ev)"
  shows "narrows c' cand"
proof (cases fl)
  case False
  with assms show ?thesis by (simp add: stage_flagged_def ret_def narrows_refl)
next
  case True
  with assms show ?thesis
    unfolding stage_flagged_def
    by (auto elim!: bnd_InrE dest!: InrDs dest: narrows_mask_and)
qed

lemma narrows_stage_cat:
  assumes "stage_cat env obj cat kra kdec sr v cand h = (Inr c', h', ev)"
  shows "narrows c' cand"
proof (cases "cat \<noteq> None \<and> np_any cand")
  case False
  with assms show ?thesis by (auto simp: stage_cat_def ret_def narrows_refl)
next
  case True
  with assms show ?thesis
    unfolding stage_cat_def
    by (auto elim!: bnd_InrE dest!: InrDs dest: narrows_mask_clear)
qed

lemma narrows_vizier_step:
  assumes "vizier_step env obj cid sr v n cand h = (Inr c', h', ev)"
  shows "narrows c' cand"
  using assms unfolding vizier_step_def
  by (auto elim!: bnd_InrE dest!: InrDs dest: narrows_drop_matched)

lemma narrows_stage_vizier:
  "stage_vizier env obj cid sr v names cand h = (Inr c', h', ev) \<Longrightarrow> narrows c' cand"
proof (induction names arbitrary: cand h ev)
  case Nil
  then show ?case by (simp add: narrows_refl)
next
  case (Cons n ns)
  show ?case
  proof (cases "np_any cand")
    case False
    with Cons.prems show ?thesis by (simp add: narrows_refl)
  next
    case True
    with Cons.prems obtain c1 h1 ev1 ev2 where
      s: "vizier_step env obj cid sr v n cand h = (Inr c1, h1, ev1)" and
      r: "stage_vizier env obj cid sr v ns c1 h1 = (Inr c', h', ev2)"
      by (auto split: prod.splits sum.splits)
    from narrows_vizier_step [OF s] Cons.IH [OF r] show ?thesis
      by (rule narrows_trans [rotated])
  qed
qed

lemma narrows_stage_skybot:
  assumes "stage_skybot env obj cid tm sb v cand h = (Inr c', h', ev)"
  shows "narrows c' cand"
proof (cases "sb \<and> np_any cand")
  case False
  with assms show ?thesis by (auto simp: stage_skybot_def ret_def narrows_refl)
next
  case True
  with assms show ?thesis
    unfolding stage_skybot_def
    by (auto elim!: bnd_InrE dest!: InrDs dest: narrows_drop_matched
        simp: narrows_refl split: option.splits if_splits)
qed

lemma narrows_stage_ned:
  assumes "stage_ned env obj cid sr nd v cand h = (Inr c', h', ev)"
  shows "narrows c' cand"
proof (cases "nd \<and> np_any cand")
  case False
  with assms show ?thesis by (auto simp: stage_ned_def ret_def narrows_refl)
next
  case True
  with assms show ?thesis
    unfolding stage_ned_def
    by (auto elim!: bnd_InrE dest!: InrDs dest: narrows_drop_matched)
qed

lemma narrows_filter_stages:
  assumes "filter_stages env obj opts cid sr cand h = (Inr c', h', ev)"
  shows "narrows c' cand"
  using assms unfolding filter_stages_def
proof (elim bnd_InrE)
  fix c1 c2 c3 c4 :: mask and h1 h2 h3 h4 :: heap and e1 e2 e3 e4 e5 :: "'a event list"
  assume a: "stage_flagged obj (f_flagged opts) cand h = (Inr c1, h1, e1)"
    and b: "stage_cat env obj (f_cat opts) (f_cat_col_ra opts) (f_cat_col_dec opts) sr
       (f_verbose opts) c1 h1 = (Inr c2, h2, e2)"
    and c: "stage_vizier env obj cid sr (f_verbose opts) (f_vizier opts) c2 h2 = (Inr c3, h3, e3)"
    and d: "stage_skybot env obj cid (f_time opts) (f_skybot opts) (f_verbose opts) c3 h3
       = (Inr c4, h4, e4)"
    and e: "stage_ned env obj cid sr (f_ned opts) (f_verbose opts) c4 h4 = (Inr c', h', e5)"
  from narrows_stage_flagged [OF a] narrows_stage_cat [OF b] narrows_stage_vizier [OF c]
    narrows_stage_skybot [OF d] narrows_stage_ned [OF e]
  show "narrows c' cand"
    by (blast intro: narrows_trans)
qed

lemma empty_stage_cat:
  "\<not> np_any cand \<Longrightarrow> stage_cat env obj cat kra kdec sr v cand h = (Inr cand, h, [])"
  by (simp add: stage_cat_def ret_def)

lemma empty_stage_vizier:
  "\<not> np_any cand \<Longrightarrow> stage_vizier env obj cid sr v names cand h = (Inr cand, h, [])"
  by (cases names) simp_all

lemma empty_stage_skybot:
  "\<not> np_any cand \<Longrightarrow> stage_skybot env obj cid tm sb v cand h = (Inr cand, h, [])"
  by (simp add: stage_skybot_def ret_def)

lemma empty_stage_ned:
  "\<not> np_any cand \<Longrightarrow> stage_ned env obj cid sr nd v cand h = (Inr cand, h, [])"
  by (simp add: stage_ned_def ret_def)

lemma not_query_Print: "\<not> is_query (Print m)"
  by (simp add: is_query_def)

lemma evs_sat_stage_flagged: "evs_sat (\<lambda>e. \<not> is_query e) (stage_flagged obj fl cand)"
  unfolding stage_flagged_def
  by (intro evs_sat_intros evs_sat_emit not_query_Print)

lemma empty_filter_stages:
  fixes env :: "'w env"
  assumes "\<not> np_any cand"
  shows "\<not> list_ex is_query (snd (snd (filter_stages env obj opts cid sr cand h)))"
proof -
  obtain r h1 e1 where
    f: "(stage_flagged obj (f_flagged opts) cand :: (mask, 'w) M) h = (r, h1, e1)"
    using prod_cases3 by blast
  have "list_all (\<lambda>e. \<not> is_query e)
          (snd (snd ((stage_flagged obj (f_flagged opts) cand :: (mask, 'w) M) h)))"
    by (rule evs_sat_app [OF evs_sat_stage_flagged])
  then have q: "list_all (\<lambda>e. \<not> is_query e) e1"
    using f by simp
  show ?thesis
  proof (cases r)
    case (Inl e)
    with f q show ?thesis
      by (simp add: filter_stages_def bnd_def list_all_iff list_ex_iff)
  next
    case (Inr c1)
    with f have "narrows c1 cand" by (auto intro: narrows_stage_flagged)
    then have "\<not> np_any c1" using assms by (rule narrows_empty)
    with f Inr q show ?thesis
      by (simp add: filter_stages_def bnd_def empty_stage_cat empty_stage_vizier
          empty_stage_skybot empty_stage_ned list_all_iff list_ex_iff)
  qed
qed

lemma bnd_cases:
  assumes "bnd m f h = (r, h', ev)"
  obtains (fail) e ev1 where "m h = (Inl e, h', ev1)" "r = Inl e"
        | (ok) x h1 ev1 ev2 where "m h = (Inr x, h1, ev1)" "f x h1 = (r, h', ev2)"
  using assms by (auto simp: bnd_def split: prod.splits sum.splits)

lemma keeps_heapD:
  assumes "keeps_heap m" and "m h = (r, h', ev)"
  shows "h' = h"
proof -
  from assms(1) have "fst (snd (m h)) = h" by (simp add: keeps_heap_def)
  with assms(2) show ?thesis by simp
qed

lemma keeps_heap_case_option:
  "(x = None \<Longrightarrow> keeps_heap a) \<Longrightarrow> (\<And>y. x = Some y \<Longrightarrow> keeps_heap (b y)) \<Longrightarrow>
   keeps_heap (case x of None \<Rightarrow> a | Some y \<Rightarrow> b y)"
  by (cases x) simp_all

lemma keeps_heap_stage_vizier:
  "keeps_heap (stage_vizier env obj cid sr v names cand)"
proof -
  have "fst (snd (stage_vizier env obj cid sr v names cand h)) = h" for h
  proof (induction names arbitrary: cand h)
    case Nil
    show ?case by simp
  next
    case (Cons n ns)
    have k: "keeps_heap (vizier_step env obj cid sr v n cand)"
      unfolding vizier_step_def by (intro keeps_heap_intros)
    show ?case
    proof (cases "np_any cand")
      case False
      then show ?thesis by simp
    next
      case True
      obtain r h1 ev1 where s: "vizier_step env obj cid sr v n cand h = (r, h1, ev1)"
        using prod_cases3 by blast
      have h1: "h1 = h" using k s by (rule keeps_heapD)
      show ?thesis
      proof (cases r)
        case (Inl e)
        with True s h1 show ?thesis by simp
      next
        case (Inr c1)
        obtain r2 h2 ev2 where t: "stage_vizier env obj cid sr v ns c1 h1 = (r2, h2, ev2)"
          using prod_cases3 by blast
        have "h2 = h1" using Cons.IH [of c1 h1] t by simp
        with True s h1 Inr t show ?thesis by simp
      qed
    qed
  qed
  then show ?thesis by (simp add: keeps_heap_def)
qed

lemma keeps_heap_filter_stages: "keeps_heap (filter_stages env obj opts cid sr c0)"
  unfolding filter_stages_def stage_flagged_def stage_cat_def stage_skybot_def stage_ned_def
  by (intro keeps_heap_intros keeps_heap_case_option keeps_heap_stage_vizier)

lemma select_rows_length: "select_rows t m = Inr x \<Longrightarrow> length m = len_table t"
  by (simp add: select_rows_def split: if_splits)

lemma select_rows_ex:
  "select_rows t m = Inr x \<Longrightarrow>
   \<exists>cand. length cand = len_table t \<and> select_rows t cand = Inr x"
  by (auto dest: select_rows_length)

lemma select_rows_names: "select_rows t m = Inr x \<Longrightarrow> map fst x = map fst t"
  by (auto simp: select_rows_def split: if_splits)

lemma len_table_update_new:
  "map_of t k = None \<Longrightarrow> length c = len_table t \<Longrightarrow> len_table (AList.update k c t) = len_table t"
  by (cases t) (auto simp: len_table_def)

lemma length_arange: "length (arange n) = n"
  by (simp add: arange_def)

lemma with_id_column_cases:
  "with_id_column obj k h = (Inr obj, h, []) \<or>
   (\<exists>t'. with_id_column obj k h = (Inr (length h), h @ [t'], []) \<and>
         len_table t' = len_table (h ! obj))"
proof (cases "map_of (h ! obj) k")
  case (Some c)
  then show ?thesis
    by (simp add: with_id_column_def bnd_get_table ret_app)
next
  case None
  have "with_id_column obj k h
          = (Inr (length h), h @ [AList.update k (arange (len_table (h ! obj))) (h ! obj)], [])"
    by (simp add: with_id_column_def bnd_get_table None bnd_alloc bnd_set_column setcol_def
        length_arange ret_app)
  moreover have "len_table (AList.update k (arange (len_table (h ! obj))) (h ! obj))
                   = len_table (h ! obj)"
    using None by (simp add: len_table_update_new length_arange)
  ultimately show ?thesis by blast
qed

lemma bnd_Inr_nil: "m h = (Inr x, h1, []) \<Longrightarrow> bnd m f h = f x h1"
  by (auto simp: bnd_def split: prod.splits)

lemma bnd_Inr:
  "m h = (Inr x, h1, ev1) \<Longrightarrow>
   bnd m f h = (case f x h1 of (r, h', ev) \<Rightarrow> (r, h', ev1 @ ev))"
  by (simp add: bnd_def)

lemma log_cases:
  obtains ev where "log v m h = (Inr (), h, ev)"
  by (cases v) (auto simp: log_def emit_def ret_def)

lemma filter_return_spec:
  fixes ev :: "'w event list"
  assumes "filter_return obj_in obj g v cand h2 = (r, h', ev)"
  shows "(h' = h2 \<or> (\<exists>res. h' = h2 @ [res])) \<and>
         (\<forall>ref. r = Inr (Candidates ref) \<longrightarrow>
            ref = length h2 \<and>
            (\<exists>res. h' = h2 @ [res] \<and> select_rows (h2 ! obj_in) cand = Inr res)) \<and>
         (\<forall>c. r = Inr (CandMask c) \<longrightarrow>
            c = cand \<and> length cand = len_table (h2 ! obj) \<and> h' = h2)"
proof (cases "select_rows (h2 ! obj) cand")
  case (Inl e)
  with assms show ?thesis
    by (auto simp: filter_return_def bnd_get_table lift_Inl bnd_raise raise_app)
next
  case (Inr left)
  note left = this
  obtain lev :: "'w event list" where
    l: "log v (MsgRemaining (len_table left)) h2 = (Inr (), h2, lev)"
    by (rule log_cases)
  note bl = bnd_Inr [where m = "log v (MsgRemaining (len_table left))" and h = h2, OF l]
  show ?thesis
  proof (cases g)
    case False
    with assms left l show ?thesis
      by (auto simp: filter_return_def bnd_get_table lift_Inr bnd_ret bl ret_app
          dest: select_rows_length)
  next
    case True
    show ?thesis
    proof (cases "select_rows (h2 ! obj_in) cand")
      case (Inl e)
      with assms left l True show ?thesis
        by (auto simp: filter_return_def bnd_get_table lift_Inr lift_Inl bnd_ret bnd_raise
            bl raise_app)
    next
      case (Inr res)
      with assms left l True show ?thesis
        by (auto simp: filter_return_def bnd_get_table lift_Inr bnd_ret bnd_alloc
            bl ret_app)
    qed
  qed
qed

lemma filter_tail_spec:
  fixes ev :: "'w event list"
  assumes "bnd (get_table o') (\<lambda>t.
           bnd (log v (msg t)) (\<lambda>u.
           bnd (filter_stages env o' opts cid sr (c0 t)) (\<lambda>cand.
           filter_return obj o' g v cand))) h2 = (r, h', ev)"
  shows "(h' = h2 \<or> (\<exists>res. h' = h2 @ [res])) \<and>
         (\<forall>ref. r = Inr (Candidates ref) \<longrightarrow>
            ref = length h2 \<and>
            (\<exists>res cand. h' = h2 @ [res] \<and> select_rows (h2 ! obj) cand = Inr res)) \<and>
         (\<forall>c. r = Inr (CandMask c) \<longrightarrow> length c = len_table (h2 ! o') \<and> h' = h2)"
proof -
  obtain lev :: "'w event list" where l: "log v (msg (h2 ! o')) h2 = (Inr (), h2, lev)"
    by (rule log_cases)
  from assms have
    a: "bnd (log v (msg (h2 ! o'))) (\<lambda>u.
        bnd (filter_stages env o' opts cid sr (c0 (h2 ! o'))) (\<lambda>cand.
        filter_return obj o' g v cand)) h2 = (r, h', ev)"
    by (simp add: bnd_get_table)
  from a show ?thesis
  proof (cases rule: bnd_cases)
    case (fail e ev1)
    with l show ?thesis by simp
  next
    case (ok u h1 ev1 ev2)
    with l have h1: "h1 = h2" by simp
    from ok(2) show ?thesis
    proof (cases rule: bnd_cases)
      case (fail e ev3)
      have "h' = h1"
        using keeps_heap_filter_stages fail(1) by (rule keeps_heapD)
      with fail h1 show ?thesis by simp
    next
      case (ok cand h3 ev3 ev4)
      have "h3 = h1"
        using keeps_heap_filter_stages ok(1) by (rule keeps_heapD)
      with ok(2) h1 have "filter_return obj o' g v cand h2 = (r, h', ev4)" by simp
      from filter_return_spec [OF this] show ?thesis by blast
    qed
  qed
qed

text \<open>
  Claim C8. \<^verbatim>\<open>filter_transient_candidates\<close> never changes a table that existed before the
  call, the caller's table among them: the identifier column goes to a copy. A returned
  candidate table is a new table, made of the rows of the caller's table that a mask with
  one entry per row selects, under the caller's column names; a returned mask has one
  entry per row of the caller's table.
\<close>

theorem filter_leaves_input:
  fixes ev :: "'w event list"
  assumes "obj < length h"
    and "filter_transient_candidates env obj opts h = (r, h', ev)"
  shows "take (length h) h' = h \<and>
         (\<forall>ref. r = Inr (Candidates ref) \<longrightarrow>
            length h \<le> ref \<and> ref < length h' \<and>
            (\<exists>cand. length cand = len_table (h ! obj) \<and>
                    select_rows (h ! obj) cand = Inr (h' ! ref)) \<and>
            map fst (h' ! ref) = map fst (h ! obj)) \<and>
         (\<forall>c. r = Inr (CandMask c) \<longrightarrow> length c = len_table (h ! obj))"
proof (cases "default_radius env (h ! obj) (f_sr opts) (f_pixscale opts)")
  case (Inl e)
  with assms(2) show ?thesis
    by (auto simp: filter_transient_candidates_def bnd_get_table lift_Inl bnd_raise raise_app)
next
  case (Inr sr)
  define cid where "cid = (case f_col_id opts of None \<Rightarrow> ''stdpipe_id'' | Some c \<Rightarrow> c)"
  define F :: "nat \<Rightarrow> (filter_result, 'w) M" where
    "F = (\<lambda>o'. bnd (get_table o') (\<lambda>t.
           bnd (log (f_verbose opts) (MsgFilterStart (len_table t) sr)) (\<lambda>u.
           bnd (filter_stages env o' opts cid sr (replicate (len_table t) True)) (\<lambda>cand.
           filter_return obj o' (f_get_candidates opts) (f_verbose opts) cand))))"
  have run: "bnd (with_id_column obj cid) F h = (r, h', ev)"
    using assms(2) Inr
    by (simp add: filter_transient_candidates_def bnd_get_table lift_Inr bnd_ret cid_def F_def)
  from with_id_column_cases [of obj cid h] show ?thesis
  proof
    assume "with_id_column obj cid h = (Inr obj, h, ([] :: 'w event list))"
    then have "F obj h = (r, h', ev)"
      using run by (simp add: bnd_Inr_nil)
    from filter_tail_spec [OF this [unfolded F_def]] assms(1) show ?thesis
      by (auto simp: nth_append intro: select_rows_ex dest: select_rows_names)
  next
    assume "\<exists>t'. with_id_column obj cid h = (Inr (length h), h @ [t'], ([] :: 'w event list)) \<and>
                 len_table t' = len_table (h ! obj)"
    then obtain t' where
      w: "with_id_column obj cid h = (Inr (length h), h @ [t'], ([] :: 'w event list))" and
      len: "len_table t' = len_table (h ! obj)"
      by blast
    from w have "F (length h) (h @ [t']) = (r, h', ev)"
      using run by (simp add: bnd_Inr_nil)
    from filter_tail_spec [OF this [unfolded F_def]] assms(1) len show ?thesis
      by (auto simp: nth_append intro: select_rows_ex dest: select_rows_names)
  qed
qed

theorem filter_leaves_input_witness:
  "(0::nat) < length [example_obj] \<and>
   fst (filter_transient_candidates (example_env None) 0 filter_defaults [example_obj])
     = Inr (Candidates 2) \<and>
   take (length [example_obj])
     (fst (snd (filter_transient_candidates (example_env None) 0 filter_defaults [example_obj])))
     = [example_obj] \<and>
   map fst (fst (snd (filter_transient_candidates (example_env None) 0 filter_defaults
                        [example_obj])) ! 2)
     = map fst ([example_obj] ! 0)"
proof -
  let ?run = "filter_transient_candidates (example_env None) 0 filter_defaults [example_obj]"
  have l: "(0::nat) < length [example_obj]" by simp
  have e: "fst ?run = Inr (Candidates 2)" by (rule filter_default_run)
  have "?run = (fst ?run, fst (snd ?run), snd (snd ?run))" by simp
  from filter_leaves_input [OF l this] e l show ?thesis by blast
qed

lemma len_table_update:
  "t = [] \<or> length c = len_table t \<Longrightarrow> len_table (AList.update k c t) = length c"
  by (cases t) (auto simp: len_table_def)

lemma setcol_twice:
  assumes "setcol t k c = Inr t1" and "length d = length c"
  shows "setcol t1 k' d = Inr (AList.update k' d t1)"
proof -
  from assms(1) have c: "t = [] \<or> length c = len_table t" and t1: "t1 = AList.update k c t"
    by (auto simp: setcol_def split: if_splits)
  from c have "len_table t1 = length c" unfolding t1 by (rule len_table_update)
  with assms(2) show ?thesis by (simp add: setcol_def)
qed

lemma all_pix2world_lengths:
  "all_pix2world env w x y = Inr rd \<Longrightarrow> length (snd rd) = length (fst rd)"
  by (auto simp: all_pix2world_def split: if_splits)

lemma set_column_app:
  "set_column r k c h =
     (case setcol (h ! r) k c of Inl e \<Rightarrow> (Inl e, h, []) | Inr t \<Rightarrow> (Inr (), h[r := t], []))"
  by (simp add: set_column_def)

lemma reproject_eq:
  "reproject env obj w h =
     (case reprojected env w (h ! obj) of
        Inl e \<Rightarrow> (Inl e, h, [])
      | Inr t' \<Rightarrow> (Inr (), h[obj := t'], []))"
proof (cases "getcol (h ! obj) ''x''")
  case (Inl e)
  then show ?thesis
    by (simp add: reproject_def reprojected_def bnd_get_table lift_Inl bnd_raise raise_app)
next
  case x: (Inr x)
  show ?thesis
  proof (cases "getcol (h ! obj) ''y''")
    case (Inl e)
    with x show ?thesis
      by (simp add: reproject_def reprojected_def bnd_get_table lift_Inl lift_Inr bnd_ret
          bnd_raise raise_app)
  next
    case y: (Inr y)
    show ?thesis
    proof (cases "all_pix2world env w x y")
      case (Inl e)
      with x y show ?thesis
        by (simp add: reproject_def reprojected_def bnd_get_table lift_Inl lift_Inr bnd_ret
            bnd_raise raise_app)
    next
      case rd: (Inr rd)
      show ?thesis
      proof (cases "setcol (h ! obj) ''ra'' (fst rd)")
        case (Inl e)
        with x y rd show ?thesis
          by (simp add: reproject_def reprojected_def bnd_get_table lift_Inr bnd_ret
              bnd_set_column)
      next
        case (Inr t1)
        from setcol_twice [OF Inr all_pix2world_lengths [OF rd]]
        have d: "setcol t1 ''dec'' (snd rd) = Inr (AList.update ''dec'' (snd rd) t1)" .
        show ?thesis
        proof (cases "obj < length h")
          case True
          with x y rd Inr d show ?thesis
            by (simp add: reproject_def reprojected_def bnd_get_table lift_Inr bnd_ret
                bnd_set_column set_column_app)
        next
          case False
          from Inr have "setcol (h ! obj) ''dec'' (snd rd)
                           = Inr (AList.update ''dec'' (snd rd) (h ! obj))"
            using all_pix2world_lengths [OF rd]
            by (auto simp: setcol_def split: if_splits)
          moreover from False have "h[obj := v] = h" for v
            by (simp add: list_update_beyond)
          ultimately show ?thesis
            using x y rd Inr d
            by (simp add: reproject_def reprojected_def bnd_get_table lift_Inr bnd_ret
                bnd_set_column set_column_app)
        qed
      qed
    qed
  qed
qed

lemma reprojected_other_columns:
  assumes "reprojected env w t = Inr t'" and "k \<noteq> ''ra''" and "k \<noteq> ''dec''"
  shows "map_of t' k = map_of t k"
  using assms
  by (auto simp: reprojected_def setcol_def update_conv' split: sum.splits if_splits)

lemma keeps_heap_case_flow:
  "(\<And>r. keeps_heap (a r)) \<Longrightarrow> (\<And>w. keeps_heap (b w)) \<Longrightarrow>
   keeps_heap (case fl of Return r \<Rightarrow> a r | Continue w \<Rightarrow> b w)"
  by (cases fl) simp_all

lemma keeps_heap_refine_iteration:
  assumes "\<not> r_update opts"
  shows "keeps_heap (refine_iteration env obj cat opts iter)"
  unfolding refine_iteration_def photometric_fit_def too_few_def fit_matched_def
    call_match_def call_refine_wcs_def
  using assms
  by (intro keeps_heap_intros keeps_heap_case_flow) simp_all

lemma keeps_heap_refine_loop:
  assumes "\<not> r_update opts"
  shows "keeps_heap (refine_loop env obj cat opts its w0)"
proof -
  have "fst (snd (refine_loop env obj cat opts its w0 h)) = h" for h
  proof (induction its arbitrary: w0 h)
    case Nil
    show ?case by simp
  next
    case (Cons i rest)
    obtain r h1 ev1 where s: "refine_iteration env obj cat opts i h = (r, h1, ev1)"
      using prod_cases3 by blast
    have h1: "h1 = h"
      using keeps_heap_refine_iteration [OF assms] s by (rule keeps_heapD)
    show ?case
    proof (cases r)
      case (Inl e)
      with s h1 show ?thesis by simp
    next
      case (Inr fl)
      show ?thesis
      proof (cases fl)
        case (Return x)
        with s h1 Inr show ?thesis by simp
      next
        case (Continue w)
        obtain r2 h2 ev2 where t: "refine_loop env obj cat opts rest w h1 = (r2, h2, ev2)"
          using prod_cases3 by blast
        have "h2 = h1" using Cons.IH [of w h1] t by simp
        with s h1 Inr Continue t show ?thesis by simp
      qed
    qed
  qed
  then show ?thesis by (simp add: keeps_heap_def)
qed

lemma prelude_eq:
  "(case wcs of None \<Rightarrow> ret () | Some w \<Rightarrow> reproject env obj w) h
     = (case wcs of
          None \<Rightarrow> (Inr (), h, [])
        | Some w \<Rightarrow>
            (case reprojected env w (h ! obj) of
               Inl e \<Rightarrow> (Inl e, h, [])
             | Inr t' \<Rightarrow> (Inr (), h[obj := t'], [])))"
  by (cases wcs) (simp_all add: ret_app reproject_eq)






lemma filter_radius_eq:
  assumes "default_radius env (h ! obj) (f_sr opts) (f_pixscale opts) = Inr sr"
  shows "filter_transient_candidates env obj opts h
           = filter_transient_candidates env obj (opts\<lparr>f_sr := Some sr\<rparr>) h"
  using assms
  by (simp add: filter_transient_candidates_def bnd_get_table lift_Inr bnd_ret
      default_radius_def filter_stages_def)

lemma calib_finish_sr: "calib_finish obj (opts\<lparr>c_sr := x\<rparr>) m = calib_finish obj opts m"
  by (cases m) (simp_all add: calib_finish_def)

lemma calibrate_radius_eq:
  assumes "default_radius env (h ! obj) (c_sr opts) (c_pixscale opts) = Inr sr"
  shows "calibrate_photometry env obj cat opts h
           = calibrate_photometry env obj cat (opts\<lparr>c_sr := Some sr\<rparr>) h"
  using assms
  by (simp add: calibrate_photometry_def bnd_get_table lift_Inr bnd_ret
      default_radius_def calib_finish_sr)

lemma default_radius_unset:
  "default_radius env t None None = Inr (float_div env (Num 1) 3600)"
  by (simp add: default_radius_def)

lemma default_radius_pixscale:
  "getcol t ''fwhm'' = Inr f \<Longrightarrow>
   default_radius env t None (Some p)
     = Inr (float_div env (np_median env (np_times env f p)) 2)"
  by (simp add: default_radius_def)

lemma default_radius_given: "default_radius env t (Some sr) ps = Inr sr"
  by (simp add: default_radius_def)

text \<open>
  Claim C9. A call of \<^verbatim>\<open>filter_transient_candidates\<close> or of \<^verbatim>\<open>calibrate_photometry\<close>
  with \<^verbatim>\<open>sr\<close> unset is the call with \<^verbatim>\<open>sr\<close> set to \<^verbatim>\<open>1/3600\<close> when no pixel scale is
  given, and to \<^verbatim>\<open>np.median(obj['fwhm']*pixscale)/2\<close> when one is: same outcome, same
  tables, same messages and calls. In a call with radius \<^verbatim>\<open>sr\<close>, every message and every
  collaborator call that carries a radius carries \<^verbatim>\<open>sr\<close>.
\<close>

theorem default_radius_policy:
  fixes env :: "'w env"
  assumes "f_sr fo = None" and "c_sr co = None"
  shows "(f_pixscale fo = None \<longrightarrow>
            filter_transient_candidates env obj fo h
              = filter_transient_candidates env obj
                  (fo\<lparr>f_sr := Some (float_div env (Num 1) 3600)\<rparr>) h) \<and>
         (\<forall>p f. f_pixscale fo = Some p \<and> getcol (h ! obj) ''fwhm'' = Inr f \<longrightarrow>
            filter_transient_candidates env obj fo h
              = filter_transient_candidates env obj
                  (fo\<lparr>f_sr := Some (float_div env (np_median env (np_times env f p)) 2)\<rparr>) h) \<and>
         (c_pixscale co = None \<longrightarrow>
            calibrate_photometry env obj cat co h
              = calibrate_photometry env obj cat
                  (co\<lparr>c_sr := Some (float_div env (Num 1) 3600)\<rparr>) h) \<and>
         (\<forall>p f. c_pixscale co = Some p \<and> getcol (h ! obj) ''fwhm'' = Inr f \<longrightarrow>
            calibrate_photometry env obj cat co h
              = calibrate_photometry env obj cat
                  (co\<lparr>c_sr := Some (float_div env (np_median env (np_times env f p)) 2)\<rparr>) h) \<and>
         (\<forall>sr. list_all (uses_radius sr)
                (snd (snd (filter_transient_candidates env obj (fo\<lparr>f_sr := Some sr\<rparr>) h)))) \<and>
         (\<forall>sr. list_all (uses_radius sr)
                (snd (snd (calibrate_photometry env obj cat (co\<lparr>c_sr := Some sr\<rparr>) h))))"
proof (intro conjI allI impI)
  assume "f_pixscale fo = None"
  with assms(1) show "filter_transient_candidates env obj fo h
      = filter_transient_candidates env obj (fo\<lparr>f_sr := Some (float_div env (Num 1) 3600)\<rparr>) h"
    by (intro filter_radius_eq) (simp add: default_radius_unset)
next
  fix p f assume "f_pixscale fo = Some p \<and> getcol (h ! obj) ''fwhm'' = Inr f"
  with assms(1) show "filter_transient_candidates env obj fo h
      = filter_transient_candidates env obj
          (fo\<lparr>f_sr := Some (float_div env (np_median env (np_times env f p)) 2)\<rparr>) h"
    by (intro filter_radius_eq) (simp add: default_radius_pixscale)
next
  assume "c_pixscale co = None"
  with assms(2) show "calibrate_photometry env obj cat co h
      = calibrate_photometry env obj cat (co\<lparr>c_sr := Some (float_div env (Num 1) 3600)\<rparr>) h"
    by (intro calibrate_radius_eq) (simp add: default_radius_unset)
next
  fix p f assume "c_pixscale co = Some p \<and> getcol (h ! obj) ''fwhm'' = Inr f"
  with assms(2) show "calibrate_photometry env obj cat co h
      = calibrate_photometry env obj cat
          (co\<lparr>c_sr := Some (float_div env (np_median env (np_times env f p)) 2)\<rparr>) h"
    by (intro calibrate_radius_eq) (simp add: default_radius_pixscale)
next
  fix sr
  show "list_all (uses_radius sr)
          (snd (snd (filter_transient_candidates env obj (fo\<lparr>f_sr := Some sr\<rparr>) h)))"
    by (rule radius_filter) (simp add: default_radius_given)
next
  fix sr
  show "list_all (uses_radius sr)
          (snd (snd (calibrate_photometry env obj cat (co\<lparr>c_sr := Some sr\<rparr>) h)))"
    by (rule radius_calibrate) (simp add: default_radius_given)
qed

lemmas calib_defs = calibrate_photometry_def calib_finish_def color_expr_def truthy_def
  call_match_def default_radius_def

theorem default_radius_policy_witness:
  "f_sr (filter_defaults\<lparr>f_pixscale := Some 2\<rparr>) = None \<and>
   c_sr (calib_defaults\<lparr>c_pixscale := Some 2, c_cat_col_mag1 := Some ''B'',
           c_cat_col_mag2 := Some ''V''\<rparr>) = None \<and>
   getcol ([example_obj] ! 0) ''fwhm'' = Inr [3, 5] \<and>
   float_div (example_env (Some example_match))
     (np_median (example_env (Some example_match))
        (np_times (example_env (Some example_match)) [3, 5] 2)) 2 = Num 4 \<and>
   filter_transient_candidates (example_env (Some example_match)) 0
       (filter_defaults\<lparr>f_pixscale := Some 2\<rparr>) [example_obj]
     = filter_transient_candidates (example_env (Some example_match)) 0
         (filter_defaults\<lparr>f_pixscale := Some 2, f_sr := Some (Num 4)\<rparr>) [example_obj] \<and>
   calibrate_photometry (example_env (Some example_match)) 0 example_cat
       (calib_defaults\<lparr>c_pixscale := Some 2, c_cat_col_mag1 := Some ''B'',
          c_cat_col_mag2 := Some ''V''\<rparr>) [example_obj]
     = calibrate_photometry (example_env (Some example_match)) 0 example_cat
         (calib_defaults\<lparr>c_pixscale := Some 2, c_cat_col_mag1 := Some ''B'',
            c_cat_col_mag2 := Some ''V'', c_sr := Some (Num 4)\<rparr>) [example_obj] \<and>
   list_all (uses_radius (Num 4))
     (snd (snd (filter_transient_candidates (example_env (Some example_match)) 0
                  (filter_defaults\<lparr>f_pixscale := Some 2\<rparr>) [example_obj]))) \<and>
   list_ex (carries_radius (Num 4))
     (snd (snd (filter_transient_candidates (example_env (Some example_match)) 0
                  (filter_defaults\<lparr>f_pixscale := Some 2\<rparr>) [example_obj]))) \<and>
   list_all (uses_radius (Num 4))
     (snd (snd (calibrate_photometry (example_env (Some example_match)) 0 example_cat
                  (calib_defaults\<lparr>c_pixscale := Some 2, c_cat_col_mag1 := Some ''B'',
                     c_cat_col_mag2 := Some ''V''\<rparr>) [example_obj]))) \<and>
   list_ex (carries_radius (Num 4))
     (snd (snd (calibrate_photometry (example_env (Some example_match)) 0 example_cat
                  (calib_defaults\<lparr>c_pixscale := Some 2, c_cat_col_mag1 := Some ''B'',
                     c_cat_col_mag2 := Some ''V''\<rparr>) [example_obj])))"
proof -
  let ?env = "example_env (Some example_match)"
  let ?fo = "filter_defaults\<lparr>f_pixscale := Some 2\<rparr>"
  let ?co = "calib_defaults\<lparr>c_pixscale := Some 2, c_cat_col_mag1 := Some ''B'',
               c_cat_col_mag2 := Some ''V''\<rparr>"
  have a: "f_sr ?fo = None" by (simp add: filter_defaults_def)
  have b: "c_sr ?co = None" by (simp add: calib_defaults_def)
  have fp: "f_pixscale ?fo = Some 2" by simp
  have cp: "c_pixscale ?co = Some 2" by simp
  have g: "getcol ([example_obj] ! 0) ''fwhm'' = Inr [3, 5]"
    by (simp add: example_obj_def getcol_def)
  have v: "float_div ?env (np_median ?env (np_times ?env [3, 5] 2)) 2 = Num 4"
    by (simp add: example_env_def exact_times_def exact_median_def exact_div_def)
  note T = default_radius_policy [OF a b, of ?env 0 "[example_obj]" example_cat]
  from T fp g have "filter_transient_candidates ?env 0 ?fo [example_obj]
      = filter_transient_candidates ?env 0
          (?fo\<lparr>f_sr := Some (float_div ?env (np_median ?env (np_times ?env [3, 5] 2)) 2)\<rparr>)
          [example_obj]"
    by blast
  then have e1: "filter_transient_candidates ?env 0 ?fo [example_obj]
      = filter_transient_candidates ?env 0 (?fo\<lparr>f_sr := Some (Num 4)\<rparr>) [example_obj]"
    by (simp only: v)
  from T cp g have "calibrate_photometry ?env 0 example_cat ?co [example_obj]
      = calibrate_photometry ?env 0 example_cat
          (?co\<lparr>c_sr := Some (float_div ?env (np_median ?env (np_times ?env [3, 5] 2)) 2)\<rparr>)
          [example_obj]"
    by blast
  then have e2: "calibrate_photometry ?env 0 example_cat ?co [example_obj]
      = calibrate_photometry ?env 0 example_cat (?co\<lparr>c_sr := Some (Num 4)\<rparr>) [example_obj]"
    by (simp only: v)
  from T have "list_all (uses_radius (Num 4))
      (snd (snd (filter_transient_candidates ?env 0 (?fo\<lparr>f_sr := Some (Num 4)\<rparr>)
                   [example_obj])))"
    by blast
  with e1 have u1: "list_all (uses_radius (Num 4))
      (snd (snd (filter_transient_candidates ?env 0 ?fo [example_obj])))"
    by simp
  from T have "list_all (uses_radius (Num 4))
      (snd (snd (calibrate_photometry ?env 0 example_cat (?co\<lparr>c_sr := Some (Num 4)\<rparr>)
                   [example_obj])))"
    by blast
  with e2 have u2: "list_all (uses_radius (Num 4))
      (snd (snd (calibrate_photometry ?env 0 example_cat ?co [example_obj])))"
    by simp
  have x1: "list_ex (carries_radius (Num 4))
      (snd (snd (filter_transient_candidates ?env 0 ?fo [example_obj])))"
    by (simp add: filter_defs monad_defs array_defs example_defs carries_radius_def
        radius_of_def)
  have x2: "list_ex (carries_radius (Num 4))
      (snd (snd (calibrate_photometry ?env 0 example_cat ?co [example_obj])))"
    by (simp add: calib_defs monad_defs array_defs example_defs carries_radius_def
        radius_of_def)
  from a b g v e1 e2 u1 x1 u2 x2 show ?thesis
    by (simp only: simp_thms)
qed













lemma getcol_reprojected:
  assumes "reprojected env w t = Inr t'" and "k \<noteq> ''ra''" and "k \<noteq> ''dec''"
  shows "getcol t' k = getcol t k"
  using reprojected_other_columns [OF assms] by (simp add: getcol_def)

lemma setcol_same:
  assumes "map_of t k = Some c" and "length c = len_table t"
  shows "setcol t k c = Inr t"
  using assms by (simp add: setcol_def update_triv)

lemma reprojected_idem:
  assumes r: "reprojected env w t = Inr t'"
  shows "reprojected env w t' = Inr t'"
proof -
  from r obtain x y rd t1 where
    x: "getcol t ''x'' = Inr x" and y: "getcol t ''y'' = Inr y"
    and rd: "all_pix2world env w x y = Inr rd"
    and s1: "setcol t ''ra'' (fst rd) = Inr t1"
    and s2: "setcol t1 ''dec'' (snd rd) = Inr t'"
    by (auto simp: reprojected_def split: sum.splits)
  have len: "length (snd rd) = length (fst rd)"
    using rd by (rule all_pix2world_lengths)
  from s1 have c1: "t = [] \<or> length (fst rd) = len_table t"
    and t1: "t1 = AList.update ''ra'' (fst rd) t"
    by (auto simp: setcol_def split: if_splits)
  have l1: "len_table t1 = length (fst rd)"
    unfolding t1 using c1 by (rule len_table_update)
  from s2 have c2: "t1 = [] \<or> length (snd rd) = len_table t1"
    and t': "t' = AList.update ''dec'' (snd rd) t1"
    by (auto simp: setcol_def split: if_splits)
  have l2: "len_table t' = length (snd rd)"
    unfolding t' using c2 by (rule len_table_update)
  have mra: "map_of t' ''ra'' = Some (fst rd)"
    by (simp add: t' t1 update_conv')
  have mdec: "map_of t' ''dec'' = Some (snd rd)"
    by (simp add: t' update_conv')
  have x': "getcol t' ''x'' = Inr x"
    using getcol_reprojected [OF r, of "''x''"] x by simp
  have y': "getcol t' ''y'' = Inr y"
    using getcol_reprojected [OF r, of "''y''"] y by simp
  have a: "setcol t' ''ra'' (fst rd) = Inr t'"
    using mra l2 len by (intro setcol_same) simp_all
  have b: "setcol t' ''dec'' (snd rd) = Inr t'"
    using mdec l2 by (intro setcol_same) simp_all
  show ?thesis
    by (simp add: reprojected_def x' y' rd a b)
qed

lemma log_app: "log v m h = (Inr (), h, if v then [Print m] else [])"
  by (simp add: log_def emit_def ret_def)

lemma prelude_idem:
  fixes e1 :: "'w event list"
  assumes "(case wcs of None \<Rightarrow> ret () | Some w \<Rightarrow> reproject env obj w) h = (Inr u, h2, e1)"
  shows "(case wcs of None \<Rightarrow> ret () | Some w \<Rightarrow> reproject env obj w) h2 = (Inr u, h2, e1)"
proof (cases wcs)
  case None
  with assms show ?thesis by (simp add: ret_app)
next
  case (Some w)
  with assms have a: "reproject env obj w h = (Inr u, h2, e1)" by simp
  then obtain t' where t': "reprojected env w (h ! obj) = Inr t'"
    and h2: "h2 = h[obj := t']" and e1: "e1 = []"
    by (auto simp: reproject_eq split: sum.splits)
  show ?thesis
  proof (cases "obj < length h")
    case True
    with h2 have "h2 ! obj = t'" by simp
    moreover have "reprojected env w t' = Inr t'" using t' by (rule reprojected_idem)
    moreover have "h2[obj := t'] = h2" using h2 by simp
    ultimately show ?thesis using Some e1 by (simp add: reproject_eq)
  next
    case False
    with h2 have "h2 = h" by (simp add: list_update_beyond)
    with a Some show ?thesis by simp
  qed
qed

lemma prelude_fail:
  fixes e1 :: "'w event list"
  assumes "(case wcs of None \<Rightarrow> ret () | Some w \<Rightarrow> reproject env obj w) h = (Inl e, h2, e1)"
  shows "h2 = h"
  using assms unfolding prelude_eq by (auto split: option.splits sum.splits)

lemma call_scamp_keeps:
  assumes "\<forall>t. snd (refine_wcs_scamp env t cat (scamp_args_of opts)) = t"
    and "call_scamp env obj cat opts h = (r, h', ev)"
  shows "h' = h"
proof -
  obtain w t' where s: "refine_wcs_scamp env (h ! obj) cat (scamp_args_of opts) = (w, t')"
    by (cases "refine_wcs_scamp env (h ! obj) cat (scamp_args_of opts)")
  with assms(1) have "t' = h ! obj" by (metis snd_conv)
  with s assms(2) show ?thesis by (simp add: call_scamp_def)
qed

lemma refine_astrometry_app:
  "refine_astrometry env obj cat opts h =
     (case (case r_wcs opts of None \<Rightarrow> ret () | Some w \<Rightarrow> reproject env obj w) h of
        (Inl e, h2, e1) \<Rightarrow>
          (Inl e, h2, (if r_verbose opts
             then [Print (MsgRefineStart (r_sr opts) (r_use_photometry opts) (r_method opts))]
             else []) @ e1)
      | (Inr u, h2, e1) \<Rightarrow>
          (case (if r_method opts = ''scamp'' then call_scamp env obj cat opts
                 else refine_loop env obj cat opts [0..<nat (r_n_iter opts)] (r_wcs opts)) h2 of
             (r, h3, e2) \<Rightarrow>
               (r, h3, (if r_verbose opts
                  then [Print (MsgRefineStart (r_sr opts) (r_use_photometry opts)
                      (r_method opts))]
                  else []) @ e1 @ e2)))"
  by (simp add: refine_astrometry_def bnd_def log_app split: prod.splits sum.splits)

text \<open>
  Claim C7. With \<^verbatim>\<open>update=False\<close>, a second call of \<^verbatim>\<open>refine_astrometry\<close> with the same
  arguments, made on the store the first call left, gives the same outcome (the same WCS
  solution, or the same error), makes the same calls and prints the same messages, and
  leaves the store as it found it. The first call may have written the projection of the
  initial WCS into \<^verbatim>\<open>ra\<close> and \<^verbatim>\<open>dec\<close> (lines 34-35); the second call writes the same
  values again before it reads them. This holds for every number of iterations, so for
  \<^verbatim>\<open>n_iter=1\<close>; for \<^verbatim>\<open>method='scamp'\<close> it is stated for a delegated solver that, called with
  \<^verbatim>\<open>update=False\<close>, leaves the object table as it is.
\<close>

theorem refine_idempotent:
  fixes ev :: "'w event list" and env :: "'w env"
  assumes nu: "\<not> r_update opts"
    and sc: "r_method opts = ''scamp'' \<longrightarrow>
             (\<forall>t. snd (refine_wcs_scamp env t cat (scamp_args_of opts)) = t)"
    and run: "refine_astrometry env obj cat opts h = (r, h1, ev)"
  shows "refine_astrometry env obj cat opts h1 = (r, h1, ev)"
proof -
  let ?P = "(case r_wcs opts of None \<Rightarrow> ret () | Some w \<Rightarrow> reproject env obj w) :: (unit, 'w) M"
  let ?T = "(if r_method opts = ''scamp'' then call_scamp env obj cat opts
             else refine_loop env obj cat opts [0..<nat (r_n_iter opts)] (r_wcs opts))
            :: ('w option, 'w) M"
  have keep: "h3 = h2" if "?T h2 = (x, h3, e2)" for x h2 h3 and e2 :: "'w event list"
  proof (cases "r_method opts = ''scamp''")
    case True
    with that sc show ?thesis by (auto dest: call_scamp_keeps)
  next
    case False
    with that have "refine_loop env obj cat opts [0..<nat (r_n_iter opts)] (r_wcs opts) h2
                      = (x, h3, e2)" by simp
    with keeps_heap_refine_loop [OF nu] show ?thesis by (rule keeps_heapD)
  qed
  obtain p h2 e1 where p: "?P h = (p, h2, e1)"
    using prod_cases3 by blast
  show ?thesis
  proof (cases p)
    case (Inl e)
    with p have "h2 = h" by (auto dest: prelude_fail)
    with run p Inl show ?thesis by (simp add: refine_astrometry_app)
  next
    case (Inr u)
    obtain x h3 e2 where t: "?T h2 = (x, h3, e2)"
      using prod_cases3 by blast
    from keep [OF t] have h3: "h3 = h2" .
    from p Inr have "?P h2 = (Inr u, h2, e1)" by (auto dest: prelude_idem)
    with run p Inr t h3 show ?thesis
      by (simp add: refine_astrometry_app)
  qed
qed


lemma refine_example_run:
  "fst (refine_astrometry (example_env (Some example_match)) 0 example_cat example_refine_opts
          [example_obj]) = Inr (Some 8) \<and>
   getcol (fst (snd (refine_astrometry (example_env (Some example_match)) 0 example_cat
          example_refine_opts [example_obj])) ! 0) ''ra'' = Inr [2, 3] \<and>
   map is_match (snd (snd (refine_astrometry (example_env (Some example_match)) 0 example_cat
          example_refine_opts [example_obj]))) = [True, False]"
  by (simp add: refine_defs monad_defs array_defs example_defs example_refine_opts_def
      upt_conv_Cons is_match_def)

theorem refine_idempotent_witness:
  "\<not> r_update example_refine_opts \<and> r_n_iter example_refine_opts = 1 \<and>
   fst (refine_astrometry (example_env (Some example_match)) 0 example_cat example_refine_opts
          [example_obj]) = Inr (Some 8) \<and>
   getcol ([example_obj] ! 0) ''ra'' = Inr [10, 11] \<and>
   getcol (fst (snd (refine_astrometry (example_env (Some example_match)) 0 example_cat
          example_refine_opts [example_obj])) ! 0) ''ra'' = Inr [2, 3] \<and>
   map is_match (snd (snd (refine_astrometry (example_env (Some example_match)) 0 example_cat
          example_refine_opts [example_obj]))) = [True, False] \<and>
   refine_astrometry (example_env (Some example_match)) 0 example_cat example_refine_opts
     (fst (snd (refine_astrometry (example_env (Some example_match)) 0 example_cat
          example_refine_opts [example_obj])))
     = refine_astrometry (example_env (Some example_match)) 0 example_cat example_refine_opts
         [example_obj]"
proof -
  let ?env = "example_env (Some example_match)"
  let ?run = "refine_astrometry ?env 0 example_cat example_refine_opts [example_obj]"
  have a: "\<not> r_update example_refine_opts"
    by (simp add: example_refine_opts_def refine_defaults_def)
  have n: "r_n_iter example_refine_opts = 1"
    by (simp add: example_refine_opts_def refine_defaults_def)
  have b: "r_method example_refine_opts = ''scamp'' \<longrightarrow>
           (\<forall>t. snd (refine_wcs_scamp ?env t example_cat (scamp_args_of example_refine_opts)) = t)"
    by (simp add: example_env_def)
  have c: "?run = (fst ?run, fst (snd ?run), snd (snd ?run))" by simp
  have g: "getcol ([example_obj] ! 0) ''ra'' = Inr [10, 11]"
    by (simp add: getcol_def example_obj_def)
  from refine_idempotent [OF a b c]
  have "refine_astrometry ?env 0 example_cat example_refine_opts (fst (snd ?run)) = ?run"
    by simp
  with a n g refine_example_run show ?thesis by blast
qed

lemma fit_results_append: "fit_results (xs @ ys) = fit_results xs @ fit_results ys"
  by (induction xs rule: fit_results.induct) simp_all

lemma call_refine_wcs_InrD:
  "call_refine_wcs env t c ord sr mt meth h = (Inr w, h', ev) \<Longrightarrow>
   ev = [EvRefineWcs t c ord sr mt meth w]"
  by (auto simp: call_refine_wcs_def bnd_def emit_def ret_def)

lemma call_match_InrD:
  "call_match env a h = (Inr m, h', ev) \<Longrightarrow> ev = [EvPhotMatch a m]"
  by (auto simp: call_match_def bnd_def emit_def ret_def)

lemma log_events:
  "log v m h = (Inr u, h', ev) \<Longrightarrow> ev = (if v then [Print m] else [])"
  by (auto simp: log_def emit_def ret_def split: if_splits)

lemma fit_matched_run:
  fixes ev :: "'w event list"
  assumes "fit_matched env t cat opts i m h = (Inr fl, h', ev)"
  shows "\<exists>w. fl = Continue w \<and> fit_results ev = [w] \<and> map is_match (filter in_loop ev) = [False]"
  using assms unfolding fit_matched_def
  apply (elim bnd_InrE lift_InrE)
  apply (drule call_refine_wcs_InrD)
  apply (drule log_events)
  apply (auto simp: ret_def in_loop_def is_match_def is_fit_def)
  done


lemma bnd_lift_InrD:
  "bnd (lift r) f h = (Inr y, h', ev) \<Longrightarrow> \<exists>x. r = Inr x \<and> f x h = (Inr y, h', ev)"
  by (cases r) (auto simp: bnd_def lift_def ret_def raise_def split: prod.splits)

lemma photometric_tail:
  fixes ev :: "'w event list"
  assumes run: "bnd (call_match env a) (\<lambda>m.
       if m = None \<or> int (np_sum (idx (the m))) < r_min_matches opts
       then too_few opts m else fit_matched env t cat opts i m) h = (Inr fl, h', ev)"
    and ok: "list_all (sufficient (r_min_matches opts)) ev"
  shows "\<exists>w. fl = Continue w \<and> fit_results ev = [w] \<and>
             map is_match (filter in_loop ev) = [True, False]"
proof -
  from run obtain m :: "match_result option" and hb :: heap and em eb :: "'w event list" where
    cm: "call_match env a h = (Inr m, hb, em)"
    and br: "(if m = None \<or> int (np_sum (idx (the m))) < r_min_matches opts
              then too_few opts m else fit_matched env t cat opts i m) hb = (Inr fl, h', eb)"
    and e: "ev = em @ eb"
    by (rule bnd_InrE)
  from cm have em: "em = [EvPhotMatch a m]" by (rule call_match_InrD)
  from e em have ev: "ev = EvPhotMatch a m # eb" by simp
  with ok have "sufficient (r_min_matches opts) (EvPhotMatch a m :: 'w event)" by simp
  then have "\<not> (m = None \<or> int (np_sum (idx (the m))) < r_min_matches opts)"
    by (cases m) (simp_all add: sufficient_def)
  with br have "fit_matched env t cat opts i m hb = (Inr fl, h', eb)" by simp
  from fit_matched_run [OF this] obtain w :: "'w option" where
    "fl = Continue w" "fit_results eb = [w]" "map is_match (filter in_loop eb) = [False]"
    by (elim exE conjE)
  moreover have "in_loop (EvPhotMatch a m :: 'w event)" "is_match (EvPhotMatch a m :: 'w event)"
    by (simp_all add: in_loop_def is_match_def)
  ultimately show ?thesis
    unfolding ev by simp
qed

lemma photometric_fit_run:
  fixes ev :: "'w event list"
  assumes run: "photometric_fit env obj cat opts i h = (Inr fl, h', ev)"
    and ok: "list_all (sufficient (r_min_matches opts)) ev"
  shows "\<exists>w. fl = Continue w \<and> fit_results ev = [w] \<and>
             map is_match (filter in_loop ev) = [True, False]"
  using run
  apply (simp only: photometric_fit_def)
  apply (drule bnd_lift_InrD, erule exE, erule conjE)
  apply (simp only: bnd_get_table)
  apply ((drule bnd_lift_InrD, erule exE, erule conjE)+)
  apply (erule photometric_tail)
  apply (rule ok)
  done

lemma reproject_events:
  "reproject env obj w h = (r, h', ev) \<Longrightarrow> ev = []"
  by (auto simp: reproject_eq split: sum.splits)

lemma refine_iteration_run:
  fixes ev :: "'w event list"
  assumes run: "refine_iteration env obj cat opts i h = (Inr fl, h', ev)"
    and ok: "list_all (sufficient (r_min_matches opts)) ev"
  shows "\<exists>w. fl = Continue w \<and> fit_results ev = [w] \<and>
             map is_match (filter in_loop ev) = loop_pattern (r_use_photometry opts) 1"
proof -
  from run [unfolded refine_iteration_def]
  obtain fl0 :: "'w flow" and ha :: heap and ea eb :: "'w event list" where
    a: "(if r_use_photometry opts then photometric_fit env obj cat opts i
         else bnd (get_table obj) (\<lambda>t.
              bnd (call_refine_wcs env t cat (r_order opts) (Some (r_sr opts)) True
                     (r_method opts)) (\<lambda>w.
              ret (Continue w)))) h = (Inr fl0, ha, ea)"
    and b: "(case fl0 of
               Return r \<Rightarrow> ret (Return r)
             | Continue w \<Rightarrow>
                 if r_update opts
                 then (case w of
                         None \<Rightarrow> raise AttributeError
                       | Some w' \<Rightarrow> bnd (reproject env obj w') (\<lambda>u. ret (Continue w)))
                 else ret (Continue w)) ha = (Inr fl, h', eb)"
    and e: "ev = ea @ eb"
    by (rule bnd_InrE)
  have eb: "eb = [] \<and> fl = fl0"
  proof (cases fl0)
    case (Return r)
    with b show ?thesis by (simp add: ret_def)
  next
    case (Continue w)
    show ?thesis
    proof (cases "r_update opts")
      case False
      with b Continue show ?thesis by (simp add: ret_def)
    next
      case True
      show ?thesis
      proof (cases w)
        case None
        with b Continue True show ?thesis by (simp add: raise_def)
      next
        case (Some w')
        with b Continue True
        have "bnd (reproject env obj w') (\<lambda>u. ret (Continue w)) ha = (Inr fl, h', eb)"
          by simp
        then show ?thesis
          using Continue by (elim bnd_InrE) (auto simp: ret_def dest: reproject_events)
      qed
    qed
  qed
  with e have ev: "ev = ea" and fl: "fl = fl0" by simp_all
  show ?thesis
  proof (cases "r_use_photometry opts")
    case True
    with a have "photometric_fit env obj cat opts i h = (Inr fl0, ha, ea)" by simp
    from photometric_fit_run [OF this] ok ev True fl show ?thesis
      by (simp add: loop_pattern_def)
  next
    case False
    with a have "bnd (get_table obj) (\<lambda>t.
              bnd (call_refine_wcs env t cat (r_order opts) (Some (r_sr opts)) True
                     (r_method opts)) (\<lambda>w.
              ret (Continue w))) h = (Inr fl0, ha, ea)" by simp
    then have "\<exists>w. fl0 = Continue w \<and> fit_results ea = [w] \<and>
                 map is_match (filter in_loop ea) = [False]"
      apply (simp only: bnd_get_table)
      apply (elim bnd_InrE)
      apply (drule call_refine_wcs_InrD)
      apply (auto simp: ret_def in_loop_def is_match_def is_fit_def)
      done
    with ev False fl show ?thesis
      by (simp add: loop_pattern_def)
  qed
qed


lemma refine_loop_run:
  fixes ev :: "'w event list"
  assumes "refine_loop env obj cat opts its w0 h = (Inr r, h', ev)"
    and "list_all (sufficient (r_min_matches opts)) ev"
  shows "length (fit_results ev) = length its \<and> r = last (w0 # fit_results ev) \<and>
         map is_match (filter in_loop ev) = loop_pattern (r_use_photometry opts) (length its)"
  using assms
proof (induction its arbitrary: w0 h ev)
  case Nil
  then show ?case by (simp add: loop_pattern_def)
next
  case (Cons i rest)
  obtain x :: "error + 'w flow" and h1 :: heap and ev1 :: "'w event list" where
    s: "refine_iteration env obj cat opts i h = (x, h1, ev1)"
    using prod_cases3 by blast
  show ?case
  proof (cases x)
    case (Inl e)
    with s Cons.prems(1) show ?thesis by simp
  next
    case (Inr fl)
    note s' = s [unfolded Inr]
    show ?thesis
    proof (cases fl)
      case (Return r')
      with s' Cons.prems(1) have "ev = ev1" by simp
      with Cons.prems(2) have "list_all (sufficient (r_min_matches opts)) ev1" by simp
      from refine_iteration_run [OF s' this] Return show ?thesis by simp
    next
      case (Continue w)
      obtain r2 :: "error + 'w option" and h2 :: heap and ev2 :: "'w event list" where
        t: "refine_loop env obj cat opts rest w h1 = (r2, h2, ev2)"
        using prod_cases3 by blast
      from s' Continue t Cons.prems(1)
      have r2: "r2 = Inr r" and ev: "ev = ev1 @ ev2" and h2: "h2 = h'" by simp_all
      from Cons.prems(2) ev
      have ok1: "list_all (sufficient (r_min_matches opts)) ev1"
        and ok2: "list_all (sufficient (r_min_matches opts)) ev2" by simp_all
      from refine_iteration_run [OF s' ok1] Continue
      have f1: "fit_results ev1 = [w]"
        and p1: "map is_match (filter in_loop ev1) = loop_pattern (r_use_photometry opts) 1"
        by simp_all
      from Cons.IH [OF t [unfolded r2 h2] ok2]
      have f2: "length (fit_results ev2) = length rest"
        and l2: "r = last (w # fit_results ev2)"
        and p2: "map is_match (filter in_loop ev2)
                   = loop_pattern (r_use_photometry opts) (length rest)"
        by simp_all
      show ?thesis
        unfolding ev fit_results_append f1
        using f2 l2 p1 p2 by (simp add: loop_pattern_def)
    qed
  qed
qed

lemma prelude_events:
  fixes e1 :: "'w event list"
  assumes "(case wcs of None \<Rightarrow> ret () | Some w \<Rightarrow> reproject env obj w) h = (r, h2, e1)"
  shows "e1 = []"
  using assms unfolding prelude_eq by (auto split: option.splits sum.splits)

lemma refine_run_count:
  fixes ev :: "'w event list" and env :: "'w env"
  assumes m: "r_method opts \<noteq> ''scamp''"
    and run: "refine_astrometry env obj cat opts h = (Inr r, h', ev)"
    and ok: "list_all (sufficient (r_min_matches opts)) ev"
  shows "length (fit_results ev) = nat (r_n_iter opts) \<and>
         map is_match (filter in_loop ev)
           = loop_pattern (r_use_photometry opts) (nat (r_n_iter opts)) \<and>
         r = last (r_wcs opts # fit_results ev) \<and>
         (r_n_iter opts \<le> 0 \<longrightarrow> r = r_wcs opts \<and> \<not> list_ex in_loop ev)"
proof -
  let ?P = "(case r_wcs opts of None \<Rightarrow> ret () | Some w \<Rightarrow> reproject env obj w) :: (unit, 'w) M"
  let ?lev = "(if r_verbose opts
               then [Print (MsgRefineStart (r_sr opts) (r_use_photometry opts) (r_method opts))]
               else []) :: 'w event list"
  obtain p :: "error + unit" and h2 :: heap and e1 :: "'w event list" where
    p: "?P h = (p, h2, e1)"
    using prod_cases3 by blast
  then have e1: "e1 = []" by (rule prelude_events)
  obtain x :: "error + 'w option" and h3 :: heap and e2 :: "'w event list" where
    t: "refine_loop env obj cat opts [0..<nat (r_n_iter opts)] (r_wcs opts) h2 = (x, h3, e2)"
    using prod_cases3 by blast
  from run p t m e1 have x: "x = Inr r" and ev: "ev = ?lev @ e2"
    by (cases p; simp add: refine_astrometry_app)+
  from ok ev have ok2: "list_all (sufficient (r_min_matches opts)) e2" by simp
  have fr: "fit_results ev = fit_results e2"
    unfolding ev by (simp add: fit_results_append)
  have fl: "filter in_loop ev = filter in_loop e2"
    unfolding ev by (simp add: in_loop_Print)
  from refine_loop_run [OF t [unfolded x] ok2]
  have a: "length (fit_results ev) = nat (r_n_iter opts)"
    and b: "r = last (r_wcs opts # fit_results ev)"
    and c: "map is_match (filter in_loop ev)
              = loop_pattern (r_use_photometry opts) (nat (r_n_iter opts))"
    unfolding fr fl by simp_all
  have d: "r = r_wcs opts \<and> \<not> list_ex in_loop ev" if "r_n_iter opts \<le> 0"
  proof -
    from that a have "fit_results ev = []" by simp
    with b have "r = r_wcs opts" by simp
    moreover from that c have "filter in_loop ev = []" by (simp add: loop_pattern_def)
    then have "\<not> list_ex in_loop ev"
      by (simp add: list_ex_iff filter_empty_conv)
    ultimately show ?thesis by simp
  qed
  from a b c d show ?thesis by blast
qed


lemma sufficient_simps:
  "sufficient k (EvRefineWcs t c ord sr mt meth w)" "sufficient k (Print msg)"
  by (simp_all add: sufficient_def)

lemma refine_iteration_simple:
  assumes "\<not> r_use_photometry opts" and "\<not> r_update opts"
  shows "refine_iteration env obj cat opts i h =
     (Inr (Continue (refine_wcs env (h ! obj) cat (r_order opts) (Some (r_sr opts)) True
                      (r_method opts))), h,
      [EvRefineWcs (h ! obj) cat (r_order opts) (Some (r_sr opts)) True (r_method opts)
         (refine_wcs env (h ! obj) cat (r_order opts) (Some (r_sr opts)) True (r_method opts))])"
  using assms
  by (simp add: refine_iteration_def call_refine_wcs_def bnd_def get_table_def emit_def ret_def)

lemma simple_loop_returns:
  fixes env :: "'w env"
  assumes "\<not> r_use_photometry opts \<and> \<not> r_update opts \<and> r_wcs opts = None"
  shows "(\<exists>r. fst (refine_loop env obj cat opts its w0 h) = Inr r) \<and>
         list_all (sufficient (r_min_matches opts))
           (snd (snd (refine_loop env obj cat opts its w0 h)))"
proof (induction its arbitrary: w0 h)
  case Nil
  show ?case by simp
next
  case (Cons i rest)
  let ?w = "refine_wcs env (h ! obj) cat (r_order opts) (Some (r_sr opts)) True (r_method opts)"
  from assms have s: "refine_iteration env obj cat opts i h =
     (Inr (Continue ?w), h,
      [EvRefineWcs (h ! obj) cat (r_order opts) (Some (r_sr opts)) True (r_method opts) ?w])"
    by (simp add: refine_iteration_simple)
  obtain y :: "error + 'w option" and h2 :: heap and e2 :: "'w event list" where
    t: "refine_loop env obj cat opts rest ?w h = (y, h2, e2)"
    using prod_cases3 by blast
  from Cons.IH [of ?w h] t
  have "(\<exists>r. y = Inr r) \<and> list_all (sufficient (r_min_matches opts)) e2" by simp
  with s t show ?case by (simp add: sufficient_simps)
qed

lemma fit_example_run:
  "fst (refine_astrometry example_env_fit 0 example_cat example_loop_opts [example_obj])
     = Inr (Some 12) \<and>
   fit_results (snd (snd (refine_astrometry example_env_fit 0 example_cat example_loop_opts
     [example_obj]))) = [Some 10, Some 11, Some 12] \<and>
   list_all (sufficient (r_min_matches example_loop_opts))
     (snd (snd (refine_astrometry example_env_fit 0 example_cat example_loop_opts
        [example_obj])))"
  by (simp add: refine_defs monad_defs array_defs example_defs example_env_fit_def
      example_loop_opts_def upt_conv_Cons sufficient_def)


text \<open>
  Claim C6. A call of \<^verbatim>\<open>refine_astrometry\<close> with a method other than \<^verbatim>\<open>'scamp'\<close> that
  returns, and in which every photometric match has at least \<^verbatim>\<open>min_matches\<close> good matches,
  has run the loop body exactly \<^verbatim>\<open>n_iter\<close> times (no times for \<^verbatim>\<open>n_iter\<close> of zero or less,
  as \<^verbatim>\<open>range\<close> has it): the trace holds \<^verbatim>\<open>n_iter\<close> fits, each preceded by its match when
  \<^verbatim>\<open>use_photometry\<close> is set, and nothing in the results of the fits ends the loop early.
  The value returned is the result of the last fit, and for no iteration the initial WCS
  as given (\<^verbatim>\<open>None\<close> when absent), with no match and no fit made. With simple positional
  matching, \<^verbatim>\<open>update=False\<close> and no initial WCS nothing in the call can raise, so such a
  call always returns.
\<close>

theorem fixed_iteration_count:
  fixes ev :: "'w event list" and env :: "'w env"
  assumes m: "r_method opts \<noteq> ''scamp''"
    and run: "refine_astrometry env obj cat opts h = (x, h', ev)"
  shows "(\<forall>r. x = Inr r \<and> list_all (sufficient (r_min_matches opts)) ev \<longrightarrow>
            length (fit_results ev) = nat (r_n_iter opts) \<and>
            map is_match (filter in_loop ev)
              = loop_pattern (r_use_photometry opts) (nat (r_n_iter opts)) \<and>
            r = last (r_wcs opts # fit_results ev) \<and>
            (r_n_iter opts \<le> 0 \<longrightarrow> r = r_wcs opts \<and> \<not> list_ex in_loop ev)) \<and>
         (\<not> r_use_photometry opts \<and> \<not> r_update opts \<and> r_wcs opts = None \<longrightarrow>
            (\<exists>r. x = Inr r) \<and> list_all (sufficient (r_min_matches opts)) ev)"
proof -
  have first: "length (fit_results ev) = nat (r_n_iter opts) \<and>
        map is_match (filter in_loop ev)
          = loop_pattern (r_use_photometry opts) (nat (r_n_iter opts)) \<and>
        r = last (r_wcs opts # fit_results ev) \<and>
        (r_n_iter opts \<le> 0 \<longrightarrow> r = r_wcs opts \<and> \<not> list_ex in_loop ev)"
    if a: "x = Inr r \<and> list_all (sufficient (r_min_matches opts)) ev" for r
  proof -
    from a run have "refine_astrometry env obj cat opts h = (Inr r, h', ev)"
      and "list_all (sufficient (r_min_matches opts)) ev"
      by simp_all
    from refine_run_count [OF m this] show ?thesis .
  qed
  have second: "(\<exists>r. x = Inr r) \<and> list_all (sufficient (r_min_matches opts)) ev"
    if b: "\<not> r_use_photometry opts \<and> \<not> r_update opts \<and> r_wcs opts = None"
  proof -
    obtain y :: "error + 'w option" and h3 :: heap and e2 :: "'w event list" where
      t: "refine_loop env obj cat opts [0..<nat (r_n_iter opts)] (r_wcs opts) h = (y, h3, e2)"
      using prod_cases3 by blast
    from b have "(\<exists>r. y = Inr r) \<and> list_all (sufficient (r_min_matches opts)) e2"
      using simple_loop_returns [of opts env obj cat "[0..<nat (r_n_iter opts)]" "r_wcs opts" h] t
      by simp
    moreover from run t b m have "x = y" and "ev =
        (if r_verbose opts
         then [Print (MsgRefineStart (r_sr opts) (r_use_photometry opts) (r_method opts))]
         else []) @ e2"
      by (simp_all add: refine_astrometry_app ret_app)
    ultimately show ?thesis
      by (simp add: sufficient_simps)
  qed
  from first second show ?thesis by blast
qed

theorem fixed_iteration_count_witness:
  "r_method example_loop_opts \<noteq> ''scamp'' \<and> r_n_iter example_loop_opts = 3 \<and>
   fst (refine_astrometry example_env_fit 0 example_cat example_loop_opts [example_obj])
     = Inr (Some 12) \<and>
   list_all (sufficient (r_min_matches example_loop_opts))
     (snd (snd (refine_astrometry example_env_fit 0 example_cat example_loop_opts
        [example_obj]))) \<and>
   fit_results (snd (snd (refine_astrometry example_env_fit 0 example_cat example_loop_opts
     [example_obj]))) = [Some 10, Some 11, Some 12] \<and>
   length (fit_results (snd (snd (refine_astrometry example_env_fit 0 example_cat
     example_loop_opts [example_obj])))) = nat (r_n_iter example_loop_opts) \<and>
   map is_match (filter in_loop (snd (snd (refine_astrometry example_env_fit 0 example_cat
     example_loop_opts [example_obj]))))
     = loop_pattern (r_use_photometry example_loop_opts) (nat (r_n_iter example_loop_opts)) \<and>
   Some 12 = last (r_wcs example_loop_opts #
     fit_results (snd (snd (refine_astrometry example_env_fit 0 example_cat example_loop_opts
       [example_obj]))))"
proof -
  let ?run = "refine_astrometry example_env_fit 0 example_cat example_loop_opts [example_obj]"
  have m: "r_method example_loop_opts \<noteq> ''scamp''"
    by (simp add: example_loop_opts_def refine_defaults_def)
  have n: "r_n_iter example_loop_opts = 3"
    by (simp add: example_loop_opts_def refine_defaults_def)
  have e: "fst ?run = Inr (Some 12)"
    and f: "fit_results (snd (snd ?run)) = [Some 10, Some 11, Some 12]"
    and ok: "list_all (sufficient (r_min_matches example_loop_opts)) (snd (snd ?run))"
    using fit_example_run by simp_all
  have "?run = (fst ?run, fst (snd ?run), snd (snd ?run))" by simp
  then have c: "?run = (Inr (Some 12), fst (snd ?run), snd (snd ?run))"
    using e by simp
  from fixed_iteration_count [OF m c] m n e f ok show ?thesis by blast
qed

end
